theory Spec2Isabelle
  imports Main
begin

section \<open>Python values, exceptions and library functions\<close>

text \<open>
  The embedding follows \<^verbatim>\<open>binder/models.py\<close>. A Python \<^verbatim>\<open>str\<close> is a
  \<^typ>\<open>string\<close>; a character is a code point below 256, so the only characters matched
  by \<^verbatim>\<open>\d\<close> are the ASCII digits. Every \<^verbatim>\<open>raise\<close> of the source is a value
  \<open>Inl e\<close> of the result, and a method that may assign to an attribute of
  \<^verbatim>\<open>self\<close> returns the object next to its result.
\<close>

datatype error =
    BinderRequestError string
  | ValidationError string
  | ValueError
  | TypeError
  | AttributeError
  | IndexError

datatype tzinfo = UTC | FixedOffset int

datatype pydate = Date int int int

datatype pydatetime = DateTime pydate int int int int "tzinfo option"

datatype pytime = Time int int int int tzinfo

text \<open>A float is only carried around: a dyadic number, an infinity or a NaN.\<close>

datatype pyfloat = Finite int int | Infinity bool | NaN

datatype pyvalue =
    VNone
  | VBool bool
  | VInt int
  | VFloat pyfloat
  | VStr string
  | VDate pydate
  | VDateTime pydatetime
  | VTime pytime
  | VList "pyvalue list"
  | VDict "(string \<times> pyvalue) list"

text \<open>The result of \<^verbatim>\<open>type(v)\<close>, as far as the filters look at it.\<close>

datatype pytype =
  TNone | TBool | TInt | TFloat | TStr | TDate | TDateTime | TTime | TList | TDict

fun type_of :: "pyvalue \<Rightarrow> pytype" where
  "type_of VNone = TNone"
| "type_of (VBool b) = TBool"
| "type_of (VInt i) = TInt"
| "type_of (VFloat f) = TFloat"
| "type_of (VStr s) = TStr"
| "type_of (VDate d) = TDate"
| "type_of (VDateTime d) = TDateTime"
| "type_of (VTime t) = TTime"
| "type_of (VList l) = TList"
| "type_of (VDict d) = TDict"

text \<open>
  \<^verbatim>\<open>isinstance(v, date) and not isinstance(v, datetime)\<close>: \<^verbatim>\<open>datetime\<close> is a
  subclass of \<^verbatim>\<open>date\<close>, so only a bare date passes.
\<close>

fun is_bare_date :: "pyvalue \<Rightarrow> bool" where
  "is_bare_date (VDate d) = True"
| "is_bare_date v = False"

text \<open>
  A parser of Django (\<^verbatim>\<open>parse_date\<close>, \<^verbatim>\<open>parse_datetime\<close>) returns a value,
  returns \<^verbatim>\<open>None\<close> when the text has not its format, or raises \<^verbatim>\<open>ValueError\<close>
  when the format is right and the date does not exist.
\<close>

datatype 'a parsed = Parsed 'a | NoMatch | Invalid

text \<open>
  The functions of other libraries that the filters call are parameters of the model:
  \<^verbatim>\<open>float\<close>, Django's \<^verbatim>\<open>parse_date\<close>, \<^verbatim>\<open>parse_datetime\<close> and
  \<^verbatim>\<open>timezone.get_fixed_timezone\<close>, and \<^verbatim>\<open>binder.json.jsonloads\<close>, which takes
  bytes.
\<close>

record externals =
  py_float :: "string \<Rightarrow> pyfloat option"
  parse_date :: "string \<Rightarrow> pydate parsed"
  parse_datetime :: "string \<Rightarrow> pydatetime parsed"
  get_fixed_timezone :: "int \<Rightarrow> error + tzinfo"
  jsonloads :: "nat list \<Rightarrow> error + pyvalue"

subsection \<open>Strings\<close>

definition is_digit :: "char \<Rightarrow> bool" where
  "is_digit c = (c \<in> set ''0123456789'')"

definition is_alpha :: "char \<Rightarrow> bool" where
  "is_alpha c = (c \<in> set ''ABCDEFGHIJKLMNOPQRSTUVWXYZabcdefghijklmnopqrstuvwxyz'')"

definition digit_val :: "char \<Rightarrow> nat" where
  "digit_val c = of_char c - 48"

definition digits_value :: "string \<Rightarrow> nat" where
  "digits_value s = foldl (\<lambda>a c. 10 * a + digit_val c) 0 s"

text \<open>\<^verbatim>\<open>s.split(',')\<close>: never empty, one more element than there are commas.\<close>

fun split_comma :: "string \<Rightarrow> string list" where
  "split_comma [] = [[]]"
| "split_comma (c # cs) =
     (if c = CHR '','' then [] # split_comma cs
      else (case split_comma cs of
              [] \<Rightarrow> [[c]]
            | w # ws \<Rightarrow> (c # w) # ws))"

text \<open>\<^verbatim>\<open>s.ljust(n, c)\<close>: pads on the right, never truncates.\<close>

definition ljust :: "nat \<Rightarrow> char \<Rightarrow> string \<Rightarrow> string" where
  "ljust n c s = s @ replicate (n - length s) c"

text \<open>
  \<^verbatim>\<open>bytes(v, 'utf-8')\<close> for code points below 256: one byte below 128, two bytes
  from there.
\<close>

definition utf8_char :: "char \<Rightarrow> nat list" where
  "utf8_char c =
     (let n = (of_char c :: nat)
      in if n < 128 then [n] else [192 + n div 64, 128 + n mod 64])"

definition bytes_utf8 :: "string \<Rightarrow> nat list" where
  "bytes_utf8 s = concat (map utf8_char s)"

subsection \<open>The built-in \<^verbatim>\<open>int\<close> on a string\<close>

text \<open>
  \<^verbatim>\<open>int(s)\<close> strips white space at both ends, reads a sign, and then digits in
  which single underscores may stand between two digits. Anything else raises
  \<^verbatim>\<open>ValueError\<close>, here \<open>None\<close>. The interpreter's optional limit on the number of
  digits is not modelled.
\<close>

definition int_space :: "char \<Rightarrow> bool" where
  "int_space c = ((of_char c :: nat) \<in> set [9, 10, 11, 12, 13, 32, 133, 160])"

fun grouped_digits :: "string \<Rightarrow> string \<Rightarrow> string option" where
  "grouped_digits acc [] = Some acc"
| "grouped_digits acc [c] = (if is_digit c then Some (acc @ [c]) else None)"
| "grouped_digits acc (c # d # cs) =
     (if is_digit c then grouped_digits (acc @ [c]) (d # cs)
      else if c = CHR ''_'' \<and> acc \<noteq> [] \<and> is_digit d then grouped_digits acc (d # cs)
      else None)"

definition py_int :: "string \<Rightarrow> int option" where
  "py_int s =
     (let t = rev (dropWhile int_space (rev (dropWhile int_space s)));
          neg = (t \<noteq> [] \<and> hd t = CHR ''-'');
          body = (if t \<noteq> [] \<and> (hd t = CHR ''+'' \<or> hd t = CHR ''-'') then tl t else t)
      in if body = [] then None
         else (case grouped_digits [] body of
                 None \<Rightarrow> None
               | Some ds \<Rightarrow> Some (if neg then - int (digits_value ds) else int (digits_value ds))))"

subsection \<open>The constructor \<^verbatim>\<open>datetime.time\<close>\<close>

text \<open>Each component out of its range raises \<^verbatim>\<open>ValueError\<close>.\<close>

definition py_time :: "int \<Rightarrow> int \<Rightarrow> int \<Rightarrow> int \<Rightarrow> tzinfo \<Rightarrow> error + pytime" where
  "py_time h m s us tz =
     (if 0 \<le> h \<and> h < 24 \<and> 0 \<le> m \<and> m < 60 \<and> 0 \<le> s \<and> s < 60 \<and> 0 \<le> us \<and> us < 1000000
      then Inr (Time h m s us tz)
      else Inl ValueError)"

subsection \<open>The regular expressions\<close>

text \<open>
  \<^verbatim>\<open>re.match\<close> starts at the first character. Without the multi-line flag,
  \<^verbatim>\<open>$\<close> matches at the end of the string and before a line feed that ends it.
\<close>

definition at_end :: "string \<Rightarrow> bool" where
  "at_end s = (s = [] \<or> s = [CHR 0x0A])"

text \<open>\<^verbatim>\<open>[0-9]{n}\<close> at the start of \<open>s\<close>: the digits and the rest.\<close>

definition digits_n :: "nat \<Rightarrow> string \<Rightarrow> (string \<times> string) option" where
  "digits_n n s =
     (if n \<le> length s \<and> list_all is_digit (take n s) then Some (take n s, drop n s) else None)"

text \<open>One given character at the start of \<open>s\<close>: the rest.\<close>

fun lit :: "char \<Rightarrow> string \<Rightarrow> string option" where
  "lit c [] = None"
| "lit c (d # ds) = (if c = d then Some ds else None)"

text \<open>
  \<^verbatim>\<open>(?:\.(\d+))?\<close>: the group and the rest. What follows the group in both
  expressions cannot start with a digit, so the greedy match is the only one.
\<close>

definition fraction :: "string \<Rightarrow> string option \<times> string" where
  "fraction s =
     (case s of
        [] \<Rightarrow> (None, s)
      | c # r \<Rightarrow>
          if c = CHR ''.'' \<and> takeWhile is_digit r \<noteq> []
          then (Some (takeWhile is_digit r), dropWhile is_digit r)
          else (None, s))"

text \<open>\<^verbatim>\<open>^[0-9]{4}-[0-9]{2}-[0-9]{2}\<close>: the rest after the date.\<close>

definition date_prefix :: "string \<Rightarrow> string option" where
  "date_prefix v =
     Option.bind (digits_n 4 v) (\<lambda>(y, r1).
     Option.bind (lit CHR ''-'' r1) (\<lambda>r2.
     Option.bind (digits_n 2 r2) (\<lambda>(m, r3).
     Option.bind (lit CHR ''-'' r3) (\<lambda>r4.
     Option.bind (digits_n 2 r4) (\<lambda>(d, r5). Some r5)))))"

text \<open>\<^verbatim>\<open>[0-9]{2}:[0-9]{2}:[0-9]{2}\<close>: the three groups and the rest.\<close>

definition clock_prefix :: "string \<Rightarrow> ((string \<times> string \<times> string) \<times> string) option" where
  "clock_prefix v =
     Option.bind (digits_n 2 v) (\<lambda>(h, r1).
     Option.bind (lit CHR '':'' r1) (\<lambda>r2.
     Option.bind (digits_n 2 r2) (\<lambda>(m, r3).
     Option.bind (lit CHR '':'' r3) (\<lambda>r4.
     Option.bind (digits_n 2 r4) (\<lambda>(s, r5). Some ((h, m, s), r5))))))"

text \<open>\<^verbatim>\<open>^[0-9]{4}-[0-9]{2}-[0-9]{2}$\<close>\<close>

definition date_re_match :: "string \<Rightarrow> bool" where
  "date_re_match v = (case date_prefix v of None \<Rightarrow> False | Some r \<Rightarrow> at_end r)"

text \<open>\<^verbatim>\<open>([A-Za-z]+|[+-][0-9]{1,4})$\<close>\<close>

definition datetime_zone :: "string \<Rightarrow> bool" where
  "datetime_zone s =
     (case s of
        [] \<Rightarrow> False
      | c # r \<Rightarrow>
          if is_alpha c then at_end (dropWhile is_alpha r)
          else if c = CHR ''+'' \<or> c = CHR ''-''
          then 1 \<le> length (takeWhile is_digit r) \<and> length (takeWhile is_digit r) \<le> 4
               \<and> at_end (dropWhile is_digit r)
          else False)"

text \<open>
  \<^verbatim>\<open>^[0-9]{4}-[0-9]{2}-[0-9]{2}[T ][0-9]{2}:[0-9]{2}:[0-9]{2}([.][0-9]+)?([A-Za-z]+|[+-][0-9]{1,4})$\<close>
\<close>

definition datetime_re_match :: "string \<Rightarrow> bool" where
  "datetime_re_match v =
     (case date_prefix v of
        None \<Rightarrow> False
      | Some r0 \<Rightarrow>
          (case r0 of
             [] \<Rightarrow> False
           | c # r1 \<Rightarrow>
               (c = CHR ''T'' \<or> c = CHR '' '') \<and>
               (case clock_prefix r1 of
                  None \<Rightarrow> False
                | Some (hms, r2) \<Rightarrow> datetime_zone (snd (fraction r2)))))"

text \<open>\<^verbatim>\<open>(Z|[+-]\d{2}(?:\d{2})?)$\<close>: the group.\<close>

definition time_zone :: "string \<Rightarrow> string option" where
  "time_zone s =
     (case s of
        [] \<Rightarrow> None
      | c # r \<Rightarrow>
          if c = CHR ''Z'' then (if at_end r then Some [c] else None)
          else if c = CHR ''+'' \<or> c = CHR ''-''
          then (if digits_n 4 r \<noteq> None \<and> at_end (drop 4 r) then Some (c # take 4 r)
                else if digits_n 2 r \<noteq> None \<and> at_end (drop 2 r) then Some (c # take 2 r)
                else None)
          else None)"

text \<open>
  \<^verbatim>\<open>time_re = ^(\d{2}):(\d{2}):(\d{2})(?:\.(\d+))?(Z|[+-]\d{2}(?:\d{2})?)$\<close>:
  the five groups of \<^verbatim>\<open>match.groups()\<close>.
\<close>

definition time_re_match ::
  "string \<Rightarrow> (string \<times> string \<times> string \<times> string option \<times> string) option" where
  "time_re_match v =
     Option.bind (clock_prefix v) (\<lambda>((h, m, s), r).
     Option.bind (time_zone (snd (fraction r))) (\<lambda>z.
     Some (h, m, s, fst (fraction r), z)))"

section \<open>Fields and filters\<close>

text \<open>
  The class of a model field: the classes named in the \<^verbatim>\<open>fields\<close> lists of the
  filters, and any other class by its name. The filters compare classes with
  \<^verbatim>\<open>==\<close>, so a subclass is another class.
\<close>

datatype field_class =
    IntegerField | ForeignKey | AutoField | ManyToOneRel | ManyToManyField | ManyToManyRel
  | FloatField | DateField | DateTimeField | TimeField | BooleanField
  | CharField | TextField | UUIDField | ArrayField | JSONField
  | OtherField string

fun field_class_name :: "field_class \<Rightarrow> string" where
  "field_class_name IntegerField = ''IntegerField''"
| "field_class_name ForeignKey = ''ForeignKey''"
| "field_class_name AutoField = ''AutoField''"
| "field_class_name ManyToOneRel = ''ManyToOneRel''"
| "field_class_name ManyToManyField = ''ManyToManyField''"
| "field_class_name ManyToManyRel = ''ManyToManyRel''"
| "field_class_name FloatField = ''FloatField''"
| "field_class_name DateField = ''DateField''"
| "field_class_name DateTimeField = ''DateTimeField''"
| "field_class_name TimeField = ''TimeField''"
| "field_class_name BooleanField = ''BooleanField''"
| "field_class_name CharField = ''CharField''"
| "field_class_name TextField = ''TextField''"
| "field_class_name UUIDField = ''UUIDField''"
| "field_class_name ArrayField = ''ArrayField''"
| "field_class_name JSONField = ''JSONField''"
| "field_class_name (OtherField n) = n"

text \<open>
  What the filters read of a field: its class, \<^verbatim>\<open>field.model.__name__\<close>,
  \<^verbatim>\<open>field.name\<close> and, where it has one, \<^verbatim>\<open>field.base_field\<close>.
\<close>

datatype model_field =
  ModelField (field_cls: field_class) (model_name: string) (name: string)
        (base_field: "model_field option")

text \<open>
  The subclasses of \<^verbatim>\<open>FieldFilter\<close> that the module defines, in the order of
  their definition, which is the order of \<^verbatim>\<open>FieldFilter.__subclasses__()\<close>.
\<close>

datatype filter_cls =
    IntegerFieldFilter | FloatFieldFilter | DateFieldFilter | DateTimeFieldFilter
  | TimeFieldFilter | BooleanFieldFilter | TextFieldFilter | UUIDFieldFilter
  | ArrayFieldFilter | JSONFieldFilter

definition subclasses :: "filter_cls list" where
  "subclasses =
     [IntegerFieldFilter, FloatFieldFilter, DateFieldFilter, DateTimeFieldFilter,
      TimeFieldFilter, BooleanFieldFilter, TextFieldFilter, UUIDFieldFilter,
      ArrayFieldFilter, JSONFieldFilter]"

fun filter_cls_name :: "filter_cls \<Rightarrow> string" where
  "filter_cls_name IntegerFieldFilter = ''IntegerFieldFilter''"
| "filter_cls_name FloatFieldFilter = ''FloatFieldFilter''"
| "filter_cls_name DateFieldFilter = ''DateFieldFilter''"
| "filter_cls_name DateTimeFieldFilter = ''DateTimeFieldFilter''"
| "filter_cls_name TimeFieldFilter = ''TimeFieldFilter''"
| "filter_cls_name BooleanFieldFilter = ''BooleanFieldFilter''"
| "filter_cls_name TextFieldFilter = ''TextFieldFilter''"
| "filter_cls_name UUIDFieldFilter = ''UUIDFieldFilter''"
| "filter_cls_name ArrayFieldFilter = ''ArrayFieldFilter''"
| "filter_cls_name JSONFieldFilter = ''JSONFieldFilter''"

text \<open>The class attribute \<^verbatim>\<open>fields\<close> of a filter class.\<close>

fun filter_fields :: "filter_cls \<Rightarrow> field_class list" where
  "filter_fields IntegerFieldFilter =
     [IntegerField, ForeignKey, AutoField, ManyToOneRel, ManyToManyField, ManyToManyRel]"
| "filter_fields FloatFieldFilter = [FloatField]"
| "filter_fields DateFieldFilter = [DateField]"
| "filter_fields DateTimeFieldFilter = [DateTimeField]"
| "filter_fields TimeFieldFilter = [TimeField]"
| "filter_fields BooleanFieldFilter = [BooleanField]"
| "filter_fields TextFieldFilter = [CharField, TextField]"
| "filter_fields UUIDFieldFilter = [UUIDField]"
| "filter_fields ArrayFieldFilter = [ArrayField]"
| "filter_fields JSONFieldFilter = [JSONField]"

text \<open>
  The class attribute \<^verbatim>\<open>allowed_qualifiers\<close>. A qualifier is \<^verbatim>\<open>None\<close> or a
  string.
\<close>

definition ordered_qualifiers :: "string option list" where
  "ordered_qualifiers =
     [None, Some ''in'', Some ''gt'', Some ''gte'', Some ''lt'', Some ''lte'', Some ''range'',
      Some ''isnull'']"

fun allowed_qualifiers :: "filter_cls \<Rightarrow> string option list" where
  "allowed_qualifiers IntegerFieldFilter = ordered_qualifiers"
| "allowed_qualifiers FloatFieldFilter = ordered_qualifiers"
| "allowed_qualifiers DateFieldFilter = ordered_qualifiers"
| "allowed_qualifiers DateTimeFieldFilter = ordered_qualifiers"
| "allowed_qualifiers TimeFieldFilter = ordered_qualifiers"
| "allowed_qualifiers BooleanFieldFilter = [None]"
| "allowed_qualifiers TextFieldFilter =
     [None, Some ''in'', Some ''iexact'', Some ''contains'', Some ''icontains'',
      Some ''startswith'', Some ''istartswith'', Some ''endswith'', Some ''iendswith'',
      Some ''exact'', Some ''isnull'']"
| "allowed_qualifiers UUIDFieldFilter =
     [None, Some ''in'', Some ''iexact'', Some ''contains'', Some ''icontains'',
      Some ''startswith'', Some ''istartswith'', Some ''endswith'', Some ''iendswith'',
      Some ''exact'']"
| "allowed_qualifiers ArrayFieldFilter =
     [None, Some ''contains'', Some ''contained_by'', Some ''overlap'', Some ''isnull'']"
| "allowed_qualifiers JSONFieldFilter =
     [None, Some ''contains'', Some ''contained_by'', Some ''has_key'', Some ''has_any_keys'',
      Some ''has_keys'', Some ''isnull'']"

text \<open>
  A filter object: its class, \<^verbatim>\<open>self.field\<close>, and the attribute
  \<^verbatim>\<open>self._field_filter\<close> that \<^verbatim>\<open>get_field_filter\<close> assigns
  (\<open>None\<close> while the attribute is absent or holds \<^verbatim>\<open>None\<close>:
  \<^verbatim>\<open>getattr(self, '_field_filter', None)\<close> reads both alike).
\<close>

datatype filter_obj =
  FilterObj (fo_cls: filter_cls) (fo_field: model_field) (fo_field_filter: "filter_cls option")

text \<open>\<^verbatim>\<open>FieldFilter.__init__\<close>\<close>

definition new_filter :: "filter_cls \<Rightarrow> model_field \<Rightarrow> filter_obj" where
  "new_filter cls field = FilterObj cls field None"

text \<open>The predicate \<^verbatim>\<open>Q(**{key: value})\<close> and its negation \<^verbatim>\<open>~Q(...)\<close>.\<close>

datatype predicate = Q string pyvalue | Not_Q string pyvalue

definition build_q :: "bool \<Rightarrow> string \<Rightarrow> pyvalue \<Rightarrow> predicate" where
  "build_q invert key v = (if invert then Not_Q key v else Q key v)"

text \<open>\<^verbatim>\<open>'{}'.format(qualifier)\<close>\<close>

fun format_qualifier :: "string option \<Rightarrow> string" where
  "format_qualifier None = ''None''"
| "format_qualifier (Some q) = q"

definition field_description :: "filter_obj \<Rightarrow> string" where
  "field_description self =
     field_class_name (field_cls (fo_field self)) @ '' {'' @ model_name (fo_field self)
       @ ''}.{'' @ name (fo_field self) @ ''}''"

definition unsupported_qualifier :: "filter_obj \<Rightarrow> string option \<Rightarrow> error" where
  "unsupported_qualifier self qualifier =
     BinderRequestError
       (''Qualifier '' @ format_qualifier qualifier @ '' not supported for type ''
          @ filter_cls_name (fo_cls self) @ '' ('' @ field_description self @ '').'')"

definition check_qualifier :: "filter_obj \<Rightarrow> string option \<Rightarrow> (error + unit) \<times> filter_obj" where
  "check_qualifier self qualifier =
     (if qualifier \<notin> set (allowed_qualifiers (fo_cls self))
      then (Inl (unsupported_qualifier self qualifier), self)
      else (Inr (), self))"

definition invalid_value :: "string \<Rightarrow> filter_obj \<Rightarrow> string \<Rightarrow> error" where
  "invalid_value what self v =
     ValidationError (''Invalid '' @ what @ ''value {'' @ v @ ''} for '' @ field_description self @ ''.'')"

definition range_count_error :: "filter_obj \<Rightarrow> error" where
  "range_count_error self =
     BinderRequestError (''Range requires exactly 2 values for '' @ field_description self @ ''.'')"

definition empty_value_error :: "filter_obj \<Rightarrow> error" where
  "empty_value_error self =
     ValidationError
       (''Value for filter {'' @ model_name (fo_field self) @ ''}.{'' @ name (fo_field self)
          @ ''} may not be empty.'')"

definition type_mismatch_error :: "filter_obj \<Rightarrow> error" where
  "type_mismatch_error self =
     ValidationError
       (''Values for filter {'' @ model_name (fo_field self) @ ''}.{'' @ name (fo_field self)
          @ ''} must be the same types.'')"

subsection \<open>\<^verbatim>\<open>ArrayFieldFilter.get_field_filter\<close>\<close>

text \<open>
  The two loops: the \<^verbatim>\<open>break\<close> leaves the inner loop only, so the last filter
  class that lists the field class is the result.
\<close>

fun lists_class :: "field_class list \<Rightarrow> field_class \<Rightarrow> bool" where
  "lists_class [] wanted = False"
| "lists_class (c # rest) wanted = (if c = wanted then True else lists_class rest wanted)"

fun scan_subclasses :: "filter_cls list \<Rightarrow> field_class \<Rightarrow> filter_cls option \<Rightarrow> filter_cls option" where
  "scan_subclasses [] wanted f = f"
| "scan_subclasses (field_filter_cls # rest) wanted f =
     scan_subclasses rest wanted
       (if lists_class (filter_fields field_filter_cls) wanted then Some field_filter_cls else f)"

definition get_field_filter ::
  "filter_obj \<Rightarrow> field_class \<Rightarrow> bool \<Rightarrow> filter_cls option \<times> filter_obj" where
  "get_field_filter self wanted reset =
     (let f = (if reset then None else fo_field_filter self)
      in case f of
           Some cls \<Rightarrow> (Some cls, self)
         | None \<Rightarrow>
             (let f' = scan_subclasses subclasses wanted None
              in (f', FilterObj (fo_cls self) (fo_field self) f')))"

subsection \<open>\<^verbatim>\<open>clean_value\<close>\<close>

text \<open>
  A list comprehension or \<^verbatim>\<open>map\<close> over a call that may raise and may assign:
  the elements in order, the state handed on, the first exception ending it.
\<close>

fun map_raise :: "('s \<Rightarrow> 'a \<Rightarrow> (error + 'b) \<times> 's) \<Rightarrow> 's \<Rightarrow> 'a list \<Rightarrow> (error + 'b list) \<times> 's" where
  "map_raise f s [] = (Inr [], s)"
| "map_raise f s (x # xs) =
     (case f s x of
        (Inl e, s') \<Rightarrow> (Inl e, s')
      | (Inr y, s') \<Rightarrow>
          (case map_raise f s' xs of
             (Inl e, s'') \<Rightarrow> (Inl e, s'')
           | (Inr ys, s'') \<Rightarrow> (Inr (y # ys), s'')))"

text \<open>
  \<^verbatim>\<open>TimeFieldFilter.clean_value\<close>, after the match: the zone of the last group,
  and the time of the five groups.
\<close>

definition tzinfo_of_group :: "externals \<Rightarrow> string \<Rightarrow> error + tzinfo" where
  "tzinfo_of_group X tzinfo =
     (if tzinfo = ''Z'' then Inr UTC
      else (let tz = ljust 5 CHR ''0'' tzinfo
            in case py_int (take 2 (drop 1 tz)) of
                 None \<Rightarrow> Inl ValueError
               | Some hh \<Rightarrow>
                   (case py_int (take 2 (drop 3 tz)) of
                      None \<Rightarrow> Inl ValueError
                    | Some mm \<Rightarrow>
                        (let offset = hh * 60 + mm
                         in get_fixed_timezone X
                              (if take 1 tz = ''-'' then - offset else offset)))))"

definition time_of_groups ::
  "externals \<Rightarrow> string \<times> string \<times> string \<times> string option \<times> string \<Rightarrow> error + pytime" where
  "time_of_groups X g =
     (case g of (hour, minute, second, microsecond, tzinfo) \<Rightarrow>
      (case py_int hour of None \<Rightarrow> Inl ValueError | Some hour' \<Rightarrow>
      (case py_int minute of None \<Rightarrow> Inl ValueError | Some minute' \<Rightarrow>
      (case py_int second of None \<Rightarrow> Inl ValueError | Some second' \<Rightarrow>
      (case py_int (ljust 6 CHR ''0'' (case microsecond of None \<Rightarrow> [] | Some m \<Rightarrow> m)) of
         None \<Rightarrow> Inl ValueError
       | Some microsecond' \<Rightarrow>
      (case tzinfo_of_group X tzinfo of
         Inl e \<Rightarrow> Inl e
       | Inr tzinfo' \<Rightarrow> py_time hour' minute' second' microsecond' tzinfo'))))))"

text \<open>
  The method \<^verbatim>\<open>clean_value\<close> of each class. Only the array filter assigns to
  \<^verbatim>\<open>self\<close>; it builds a filter of the class found for the class of its base field
  and cleans every element with that one object.
\<close>

function clean_value ::
  "externals \<Rightarrow> filter_obj \<Rightarrow> string option \<Rightarrow> string \<Rightarrow> (error + pyvalue) \<times> filter_obj" where
  "clean_value X (FilterObj cls (ModelField fc mn nm bf) ff) qualifier v =
     (let self = FilterObj cls (ModelField fc mn nm bf) ff in
      case cls of
        IntegerFieldFilter \<Rightarrow>
          (case py_int v of
             Some i \<Rightarrow> (Inr (VInt i), self)
           | None \<Rightarrow> (Inl (invalid_value [] self v), self))
      | FloatFieldFilter \<Rightarrow>
          (case py_float X v of
             Some x \<Rightarrow> (Inr (VFloat x), self)
           | None \<Rightarrow> (Inl (invalid_value [] self v), self))
      | DateFieldFilter \<Rightarrow>
          (if \<not> date_re_match v then (Inl (invalid_value ''YYYY-MM-DD '' self v), self)
           else (case parse_date X v of
                   Parsed d \<Rightarrow> (Inr (VDate d), self)
                 | NoMatch \<Rightarrow> (Inr VNone, self)
                 | Invalid \<Rightarrow> (Inl ValueError, self)))
      | DateTimeFieldFilter \<Rightarrow>
          (if datetime_re_match v
           then (case parse_datetime X v of
                   Parsed d \<Rightarrow> (Inr (VDateTime d), self)
                 | NoMatch \<Rightarrow> (Inr VNone, self)
                 | Invalid \<Rightarrow> (Inl ValueError, self))
           else if date_re_match v
           then (case parse_date X v of
                   Parsed d \<Rightarrow> (Inr (VDate d), self)
                 | NoMatch \<Rightarrow> (Inr VNone, self)
                 | Invalid \<Rightarrow> (Inl ValueError, self))
           else (Inl (invalid_value ''YYYY-MM-DD(.mmm)ZONE '' self v), self))
      | TimeFieldFilter \<Rightarrow>
          (case time_re_match v of
             None \<Rightarrow> (Inl (invalid_value ''HH:MM:SS(.mmm) '' self v), self)
           | Some g \<Rightarrow>
               (case time_of_groups X g of
                  Inl e \<Rightarrow> (Inl e, self)
                | Inr t \<Rightarrow> (Inr (VTime t), self)))
      | BooleanFieldFilter \<Rightarrow>
          (if v = ''true'' then (Inr (VBool True), self)
           else if v = ''false'' then (Inr (VBool False), self)
           else (Inl (invalid_value [] self v), self))
      | TextFieldFilter \<Rightarrow> (Inr (VStr v), self)
      | UUIDFieldFilter \<Rightarrow> (Inr (VStr v), self)
      | ArrayFieldFilter \<Rightarrow>
          (case bf of
             None \<Rightarrow> (Inl AttributeError, self)
           | Some base \<Rightarrow>
               (case get_field_filter self (field_cls base) False of
                  (None, self') \<Rightarrow> (Inl TypeError, self')
                | (Some Filter, self') \<Rightarrow>
                    if v = [] then (Inr (VList []), self')
                    else (case map_raise
                                 (\<lambda>ff' w.
                                    case clean_value X (FilterObj Filter base ff') qualifier w of
                                      (r, filter') \<Rightarrow> (r, fo_field_filter filter'))
                                 None (split_comma v)
                          of (Inl e, ff') \<Rightarrow> (Inl e, self')
                           | (Inr l, ff') \<Rightarrow> (Inr (VList l), self'))))
      | JSONFieldFilter \<Rightarrow>
          (if qualifier = Some ''has_key'' then (Inr (VStr v), self)
           else if qualifier = Some ''has_keys'' \<or> qualifier = Some ''has_any_keys''
           then (if v = [] then (Inr (VList []), self)
                 else (Inr (VList (map VStr (split_comma v))), self))
           else (case jsonloads X (bytes_utf8 v) of
                   Inl e \<Rightarrow> (Inl e, self)
                 | Inr j \<Rightarrow> (Inr j, self))))"
  by pat_completeness auto
termination
  by (relation "measure (\<lambda>(X, self, qualifier, v). size (fo_field self))") auto


subsection \<open>\<^verbatim>\<open>get_q\<close>\<close>

text \<open>\<^verbatim>\<open>qualifier in ('in', 'range')\<close>\<close>

definition in_or_range :: "string option \<Rightarrow> bool" where
  "in_or_range qualifier = (qualifier = Some ''in'' \<or> qualifier = Some ''range'')"

text \<open>
  \<^verbatim>\<open>suffix = '__' + qualifier if qualifier else ''\<close>: \<^verbatim>\<open>None\<close> and the empty
  string are both false.
\<close>

definition suffix :: "string option \<Rightarrow> string" where
  "suffix qualifier =
     (case qualifier of
        None \<Rightarrow> []
      | Some q \<Rightarrow> if q = [] then [] else ''__'' @ q)"

text \<open>\<^verbatim>\<open>values[0]\<close>\<close>

definition first_value :: "string list \<Rightarrow> error + string" where
  "first_value values = (case values of [] \<Rightarrow> Inl IndexError | v # rest \<Rightarrow> Inr v)"

text \<open>
  The first half of both \<^verbatim>\<open>get_q\<close> methods: the split of the raw value and the
  count of a range.
\<close>

definition split_values :: "filter_obj \<Rightarrow> string option \<Rightarrow> string \<Rightarrow> error + string list" where
  "split_values self qualifier v =
     (if in_or_range qualifier
      then (if qualifier = Some ''range'' \<and> length (split_comma v) \<noteq> 2
            then Inl (range_count_error self)
            else Inr (split_comma v))
      else Inr [v])"

text \<open>The last lines of both methods: the key and the predicate.\<close>

definition make_q :: "filter_obj \<Rightarrow> string option \<Rightarrow> bool \<Rightarrow> string \<Rightarrow> pyvalue \<Rightarrow> predicate" where
  "make_q self qualifier invert partial cleaned_value =
     build_q invert (partial @ name (fo_field self) @ suffix qualifier) cleaned_value"

text \<open>\<^verbatim>\<open>[self.clean_value(qualifier, v) for v in values]\<close>\<close>

definition clean_values ::
  "externals \<Rightarrow> filter_obj \<Rightarrow> string option \<Rightarrow> string list \<Rightarrow> (error + pyvalue list) \<times> filter_obj" where
  "clean_values X self qualifier values =
     map_raise (\<lambda>self' v. clean_value X self' qualifier v) self values"

text \<open>\<^verbatim>\<open>FieldFilter.get_q\<close>\<close>

definition FieldFilter_get_q ::
  "externals \<Rightarrow> filter_obj \<Rightarrow> string option \<Rightarrow> string \<Rightarrow> bool \<Rightarrow> string
     \<Rightarrow> (error + predicate) \<times> filter_obj" where
  "FieldFilter_get_q X self qualifier v invert partial =
     (case check_qualifier self qualifier of
        (Inl e, self1) \<Rightarrow> (Inl e, self1)
      | (Inr u, self1) \<Rightarrow>
          (case split_values self1 qualifier v of
             Inl e \<Rightarrow> (Inl e, self1)
           | Inr values \<Rightarrow>
               if qualifier = Some ''isnull''
               then (Inr (make_q self1 qualifier invert partial (VBool True)), self1)
               else if in_or_range qualifier
               then (case clean_values X self1 qualifier values of
                       (Inl e, self2) \<Rightarrow> (Inl e, self2)
                     | (Inr cleaned, self2) \<Rightarrow>
                         (Inr (make_q self2 qualifier invert partial (VList cleaned)), self2))
               else (case first_value values of
                       Inl IndexError \<Rightarrow> (Inl (empty_value_error self1), self1)
                     | Inl e \<Rightarrow> (Inl e, self1)
                     | Inr v0 \<Rightarrow>
                         (case clean_value X self1 qualifier v0 of
                            (Inl IndexError, self2) \<Rightarrow> (Inl (empty_value_error self2), self2)
                          | (Inl e, self2) \<Rightarrow> (Inl e, self2)
                          | (Inr cleaned, self2) \<Rightarrow>
                              (Inr (make_q self2 qualifier invert partial cleaned), self2)))))"

text \<open>
  \<^verbatim>\<open>DateTimeFieldFilter.get_q\<close>: the same, and the qualifier is rebound when the
  cleaned value is a bare date.
\<close>

definition date_qualifier :: "string option \<Rightarrow> string option" where
  "date_qualifier qualifier =
     (case qualifier of
        None \<Rightarrow> Some ''date''
      | Some q \<Rightarrow> if q = [] then Some ''date'' else Some (''date__'' @ q))"

definition DateTimeFieldFilter_get_q ::
  "externals \<Rightarrow> filter_obj \<Rightarrow> string option \<Rightarrow> string \<Rightarrow> bool \<Rightarrow> string
     \<Rightarrow> (error + predicate) \<times> filter_obj" where
  "DateTimeFieldFilter_get_q X self qualifier v invert partial =
     (case check_qualifier self qualifier of
        (Inl e, self1) \<Rightarrow> (Inl e, self1)
      | (Inr u, self1) \<Rightarrow>
          (case split_values self1 qualifier v of
             Inl e \<Rightarrow> (Inl e, self1)
           | Inr values \<Rightarrow>
               if qualifier = Some ''isnull''
               then (Inr (make_q self1 qualifier invert partial (VBool True)), self1)
               else if in_or_range qualifier
               then (case clean_values X self1 qualifier values of
                       (Inl e, self2) \<Rightarrow> (Inl e, self2)
                     | (Inr cleaned, self2) \<Rightarrow>
                         if length (remdups (map type_of cleaned)) \<noteq> 1
                         then (Inl (type_mismatch_error self2), self2)
                         else (case cleaned of
                                 [] \<Rightarrow> (Inl IndexError, self2)
                               | c0 # rest \<Rightarrow>
                                   if is_bare_date c0
                                   then (case qualifier of
                                           None \<Rightarrow> (Inl TypeError, self2)
                                         | Some q \<Rightarrow>
                                             (Inr (make_q self2 (Some (''date__'' @ q)) invert
                                                     partial (VList cleaned)), self2))
                                   else (Inr (make_q self2 qualifier invert partial
                                                (VList cleaned)), self2)))
               else (case first_value values of
                       Inl IndexError \<Rightarrow> (Inl (empty_value_error self1), self1)
                     | Inl e \<Rightarrow> (Inl e, self1)
                     | Inr v0 \<Rightarrow>
                         (case clean_value X self1 qualifier v0 of
                            (Inl IndexError, self2) \<Rightarrow> (Inl (empty_value_error self2), self2)
                          | (Inl e, self2) \<Rightarrow> (Inl e, self2)
                          | (Inr cleaned, self2) \<Rightarrow>
                              if is_bare_date cleaned
                              then (Inr (make_q self2 (date_qualifier qualifier) invert partial
                                           cleaned), self2)
                              else (Inr (make_q self2 qualifier invert partial cleaned), self2)))))"

text \<open>The method an object of the class runs.\<close>

definition get_q ::
  "externals \<Rightarrow> filter_obj \<Rightarrow> string option \<Rightarrow> string \<Rightarrow> bool \<Rightarrow> string
     \<Rightarrow> (error + predicate) \<times> filter_obj" where
  "get_q X self qualifier v invert partial =
     (if fo_cls self = DateTimeFieldFilter
      then DateTimeFieldFilter_get_q X self qualifier v invert partial
      else FieldFilter_get_q X self qualifier v invert partial)"


subsection \<open>Library functions for running the model\<close>

text \<open>
  One choice of the library functions, for the examples: dates and timestamps are read
  digit by digit (the fraction and the zone of a timestamp are dropped), an offset is
  accepted below 24 hours, no text is a float, and the only JSON document is
  \<^verbatim>\<open>null\<close>.
\<close>

definition example_date :: "string \<Rightarrow> pydate parsed" where
  "example_date s =
     (case date_prefix s of
        None \<Rightarrow> NoMatch
      | Some r \<Rightarrow>
          (let y = digits_value (take 4 s); m = digits_value (take 2 (drop 5 s));
               d = digits_value (take 2 (drop 8 s))
           in if 1 \<le> m \<and> m \<le> 12 \<and> 1 \<le> d \<and> d \<le> 31
              then Parsed (Date (int y) (int m) (int d)) else Invalid))"

definition example_datetime :: "string \<Rightarrow> pydatetime parsed" where
  "example_datetime s =
     (case example_date s of
        Parsed d \<Rightarrow>
          (case clock_prefix (drop 11 s) of
             None \<Rightarrow> NoMatch
           | Some ((h, m, sec), r) \<Rightarrow>
               Parsed (DateTime d (int (digits_value h)) (int (digits_value m))
                         (int (digits_value sec)) 0 None))
      | NoMatch \<Rightarrow> NoMatch
      | Invalid \<Rightarrow> Invalid)"

definition example_externals :: externals where
  "example_externals =
     \<lparr> py_float = (\<lambda>s. None),
       parse_date = example_date,
       parse_datetime = example_datetime,
       get_fixed_timezone =
         (\<lambda>offset. if - 1440 < offset \<and> offset < 1440 then Inr (FixedOffset offset)
                    else Inl ValueError),
       jsonloads =
         (\<lambda>b. if b = bytes_utf8 ''null'' then Inr VNone
               else Inl (BinderRequestError ''JSON parse error'')) \<rparr>"

section \<open>Change history\<close>

text \<open>
  The values of the fields of a model instance are of a type \<open>'v\<close> that the
  handlers never look into. What Python does with such values is a parameter:
  \<^verbatim>\<open>bool(v)\<close>, \<^verbatim>\<open>old != new\<close> and \<^verbatim>\<open>str(v)\<close>.
\<close>

text \<open>
  Modelled from the spec: \<^verbatim>\<open>history.NewInstanceField\<close> is defined outside the
  sources at hand. The specification calls it the new-instance sentinel: a snapshot
  holds it, or a value of a field.
\<close>

datatype 'v snapshot_value = NewInstanceField | Known 'v

record 'v python_ops =
  py_truthy :: "'v \<Rightarrow> bool"
  py_ne :: "'v snapshot_value \<Rightarrow> 'v \<Rightarrow> bool"
  py_str :: "'v \<Rightarrow> 'v"

text \<open>
  What \<^verbatim>\<open>binder_concrete_fields_as_dict\<close> reads of a field of
  \<^verbatim>\<open>self._meta.get_fields()\<close>; the last two say whether it is an instance of
  \<^verbatim>\<open>models.ForeignKey\<close> and of \<^verbatim>\<open>models.FileField\<close>.
\<close>

record meta_field =
  mf_name :: string
  mf_attname :: string
  mf_concrete :: bool
  mf_many_to_many :: bool
  mf_foreign_key :: bool
  mf_file_field :: bool

text \<open>
  A model instance: its fields, \<^verbatim>\<open>get_deferred_fields()\<close>, its attributes as
  \<^verbatim>\<open>getattr\<close> reads them (the read of a deferred field loads it; the model
  gives the value that is read), \<^verbatim>\<open>pk\<close> and the dictionary
  \<^verbatim>\<open>_history\<close>. A dictionary is a list of pairs with distinct keys, in the order
  of insertion.
\<close>

record 'v model_instance =
  meta_fields :: "meta_field list"
  deferred_fields :: "string list"
  attrs :: "string \<Rightarrow> 'v"
  pk :: 'v
  history :: "(string \<times> 'v snapshot_value) list"

text \<open>\<^verbatim>\<open>d[k] = v\<close>\<close>

fun dict_set :: "'k \<Rightarrow> 'a \<Rightarrow> ('k \<times> 'a) list \<Rightarrow> ('k \<times> 'a) list" where
  "dict_set k v [] = [(k, v)]"
| "dict_set k v ((k', v') # d) = (if k = k' then (k, v) # d else (k', v') # dict_set k v d)"

text \<open>The loop of \<^verbatim>\<open>binder_concrete_fields_as_dict\<close>.\<close>

fun concrete_fields_loop ::
  "'v python_ops \<Rightarrow> 'v model_instance \<Rightarrow> bool \<Rightarrow> meta_field list \<Rightarrow> (string \<times> 'v) list
     \<Rightarrow> (string \<times> 'v) list" where
  "concrete_fields_loop P self skip_deferred_fields [] result = result"
| "concrete_fields_loop P self skip_deferred_fields (f # fs) result =
     (if skip_deferred_fields \<and> mf_attname f \<in> set (deferred_fields self)
      then concrete_fields_loop P self skip_deferred_fields fs result
      else if mf_foreign_key f
      then concrete_fields_loop P self skip_deferred_fields fs
             (dict_set (mf_name f) (attrs self (mf_name f @ ''_id'')) result)
      else if mf_file_field f
      then concrete_fields_loop P self skip_deferred_fields fs
             (dict_set (mf_name f) (py_str P (attrs self (mf_name f))) result)
      else concrete_fields_loop P self skip_deferred_fields fs
             (dict_set (mf_name f) (attrs self (mf_name f)) result))"

definition binder_concrete_fields_as_dict ::
  "'v python_ops \<Rightarrow> 'v model_instance \<Rightarrow> bool \<Rightarrow> (string \<times> 'v) list" where
  "binder_concrete_fields_as_dict P self skip_deferred_fields =
     concrete_fields_loop P self skip_deferred_fields
       (filter (\<lambda>f. mf_concrete f \<and> \<not> mf_many_to_many f) (meta_fields self)) []"

text \<open>A change record: model, primary key, field, old value, new value.\<close>

datatype 'v change = Change string 'v string "'v snapshot_value" 'v

text \<open>
  Modelled from the spec: \<^verbatim>\<open>history.change\<close> is defined outside the sources at
  hand. The specification gives it as the sink of the change records,
  \<^verbatim>\<open>history.change(entityType, pk, fieldName, old, new)\<close>; the model keeps the
  records in the order of the calls.
\<close>

definition change ::
  "string \<Rightarrow> 'v \<Rightarrow> string \<Rightarrow> 'v snapshot_value \<Rightarrow> 'v \<Rightarrow> 'v change list \<Rightarrow> 'v change list" where
  "change model oid field old new log = log @ [Change model oid field old new]"

definition history_obj_post_init ::
  "'v python_ops \<Rightarrow> string \<Rightarrow> 'v model_instance \<Rightarrow> 'v model_instance" where
  "history_obj_post_init P sender inst =
     (let h = map (\<lambda>(k, v). (k, Known v)) (binder_concrete_fields_as_dict P inst True)
      in if \<not> py_truthy P (pk inst)
         then inst\<lparr>history := map (\<lambda>(k, v). (k, NewInstanceField)) h\<rparr>
         else inst\<lparr>history := h\<rparr>)"

text \<open>
  The loop of \<^verbatim>\<open>history_obj_post_save\<close> over the items of the dictionary, on the
  snapshot and the records: a key that the snapshot has not is the \<^verbatim>\<open>KeyError\<close>
  that the loop passes over.
\<close>

fun post_save_loop ::
  "'v python_ops \<Rightarrow> string \<Rightarrow> 'v \<Rightarrow> (string \<times> 'v) list
     \<Rightarrow> (string \<times> 'v snapshot_value) list \<times> 'v change list
     \<Rightarrow> (string \<times> 'v snapshot_value) list \<times> 'v change list" where
  "post_save_loop P sender oid [] st = st"
| "post_save_loop P sender oid ((field_name, new_value) # items) (h, log) =
     (case map_of h field_name of
        None \<Rightarrow> post_save_loop P sender oid items (h, log)
      | Some old_value \<Rightarrow>
          if py_ne P old_value new_value
          then post_save_loop P sender oid items
                 (dict_set field_name (Known new_value) h,
                  change sender oid field_name old_value new_value log)
          else post_save_loop P sender oid items (h, log))"

definition history_obj_post_save ::
  "'v python_ops \<Rightarrow> string \<Rightarrow> 'v model_instance \<Rightarrow> 'v change list
     \<Rightarrow> 'v model_instance \<times> 'v change list" where
  "history_obj_post_save P sender inst log =
     (case post_save_loop P sender (pk inst) (binder_concrete_fields_as_dict P inst False)
             (history inst, log) of
        (h, log') \<Rightarrow> (inst\<lparr>history := h\<rparr>, log'))"

text \<open>The field a record is about.\<close>

fun change_field :: "'v change \<Rightarrow> string" where
  "change_field (Change model oid field old new) = field"

subsection \<open>Auxiliary notions for the statements\<close>

text \<open>The outcome of a run over results: the first error, or all the values in order.\<close>

fun first_error_or_all :: "(error + 'a) list \<Rightarrow> error + 'a list" where
  "first_error_or_all [] = Inr []"
| "first_error_or_all (Inl e # rs) = Inl e"
| "first_error_or_all (Inr y # rs) =
     (case first_error_or_all rs of Inl e \<Rightarrow> Inl e | Inr ys \<Rightarrow> Inr (y # ys))"

text \<open>
  What \<^verbatim>\<open>get_field_filter\<close> finds for the base field of an array filter; other
  filters never assign the attribute.
\<close>

definition resolved_filter :: "filter_cls \<Rightarrow> model_field \<Rightarrow> filter_cls option" where
  "resolved_filter cls fld =
     (if cls = ArrayFieldFilter
      then (case base_field fld of
              None \<Rightarrow> None
            | Some base \<Rightarrow> scan_subclasses subclasses (field_cls base) None)
      else None)"

subsection \<open>Filters for the examples\<close>

definition text_filter :: filter_obj where
  "text_filter = new_filter TextFieldFilter (ModelField CharField ''Animal'' ''name'' None)"

definition int_filter :: filter_obj where
  "int_filter = new_filter IntegerFieldFilter (ModelField IntegerField ''Animal'' ''age'' None)"

definition datetime_filter :: filter_obj where
  "datetime_filter =
     new_filter DateTimeFieldFilter (ModelField DateTimeField ''Animal'' ''birth'' None)"

definition time_filter :: filter_obj where
  "time_filter = new_filter TimeFieldFilter (ModelField TimeField ''Animal'' ''feeding'' None)"

definition json_filter :: filter_obj where
  "json_filter = new_filter JSONFieldFilter (ModelField JSONField ''Animal'' ''notes'' None)"

definition int_array_filter :: filter_obj where
  "int_array_filter =
     new_filter ArrayFieldFilter
       (ModelField ArrayField ''Animal'' ''tags''
          (Some (ModelField IntegerField ''Animal'' ''tags'' None)))"

text \<open>An array of a field class that no filter class lists.\<close>

definition decimal_array_filter :: filter_obj where
  "decimal_array_filter =
     new_filter ArrayFieldFilter
       (ModelField ArrayField ''Animal'' ''weights''
          (Some (ModelField (OtherField ''DecimalField'') ''Animal'' ''weights'' None)))"

subsection \<open>A model instance for the examples\<close>

text \<open>
  One choice of the operations of Python on the values of fields: \<^verbatim>\<open>None\<close>, zero
  and the empty string are false, two values differ when they are not the same, and
  \<^verbatim>\<open>str\<close> changes nothing.
\<close>

definition example_ops :: "pyvalue python_ops" where
  "example_ops =
     \<lparr> py_truthy = (\<lambda>v. v \<noteq> VNone \<and> v \<noteq> VInt 0 \<and> v \<noteq> VStr []),
       py_ne = (\<lambda>old new. old \<noteq> Known new),
       py_str = (\<lambda>v. v) \<rparr>"

definition plain_field :: "string \<Rightarrow> meta_field" where
  "plain_field n =
     \<lparr> mf_name = n, mf_attname = n, mf_concrete = True, mf_many_to_many = False,
       mf_foreign_key = False, mf_file_field = False \<rparr>"

definition animal_fields :: "meta_field list" where
  "animal_fields =
     [plain_field ''id'', plain_field ''name'',
      (plain_field ''zoo'')\<lparr> mf_attname := ''zoo_id'', mf_foreign_key := True \<rparr>,
      (plain_field ''costume'')\<lparr> mf_many_to_many := True \<rparr>]"

definition animal_attrs :: "pyvalue \<Rightarrow> string \<Rightarrow> pyvalue" where
  "animal_attrs ident n =
     (if n = ''id'' then ident else if n = ''name'' then VStr ''Rex''
      else if n = ''zoo_id'' then VInt 7 else VNone)"

definition new_animal :: "pyvalue model_instance" where
  "new_animal =
     \<lparr> meta_fields = animal_fields, deferred_fields = [], attrs = animal_attrs VNone,
       pk = VNone, history = [] \<rparr>"

definition unsaved_animal :: "pyvalue model_instance" where
  "unsaved_animal =
     \<lparr> meta_fields = animal_fields, deferred_fields = [], attrs = animal_attrs (VInt 1),
       pk = VInt 1,
       history = [(''id'', NewInstanceField), (''name'', NewInstanceField),
                  (''zoo'', NewInstanceField)] \<rparr>"

definition saved_animal :: "pyvalue model_instance" where
  "saved_animal =
     \<lparr> meta_fields = animal_fields, deferred_fields = [], attrs = animal_attrs (VInt 1),
       pk = VInt 1,
       history = [(''id'', Known (VInt 1)), (''name'', Known (VStr ''Rex'')),
                  (''zoo'', Known (VInt 7))] \<rparr>"

section \<open>Properties of the filters\<close>

declare clean_value.simps [simp del]

lemma clean_value_keeps_self:
  "fo_cls self \<noteq> ArrayFieldFilter \<Longrightarrow> snd (clean_value X self qualifier v) = self"
proof -
  assume na: "fo_cls self \<noteq> ArrayFieldFilter"
  obtain cls fld ff where s: "self = FilterObj cls fld ff" by (cases self)
  obtain fc mn nm bf where f: "fld = ModelField fc mn nm bf" by (cases fld)
  from na show ?thesis
    unfolding s f
    by (cases cls)
      (simp_all add: clean_value.simps Let_def split: option.split parsed.split sum.split)
qed

lemma map_raise_keeps_state:
  "(\<And>x. snd (f s x) = s) \<Longrightarrow> snd (map_raise f s xs) = s"
proof (induction xs)
  case Nil
  show ?case by simp
next
  case (Cons x xs)
  have "snd (f s x) = s" by (rule Cons.prems)
  moreover have "snd (map_raise f s xs) = s" by (rule Cons.IH) (rule Cons.prems)
  ultimately show ?case
    by (cases "f s x"; cases "map_raise f s xs") (auto split: sum.splits)
qed

lemma map_raise_all_right:
  "(\<And>x. snd (f s x) = s) \<Longrightarrow> map (\<lambda>x. fst (f s x)) xs = map Inr ys
     \<Longrightarrow> map_raise f s xs = (Inr ys, s)"
proof (induction xs arbitrary: ys)
  case Nil
  then show ?case by simp
next
  case (Cons x xs)
  from Cons.prems(2) obtain y ys' where ys: "ys = y # ys'" and
    hd: "fst (f s x) = Inr y" and tl: "map (\<lambda>x. fst (f s x)) xs = map Inr ys'"
    by (cases ys) auto
  have st: "snd (f s x) = s" by (rule Cons.prems(1))
  have "map_raise f s xs = (Inr ys', s)" using Cons.IH [OF Cons.prems(1) tl] .
  with hd st show ?case unfolding ys by (cases "f s x") auto
qed

lemma check_qualifier_allowed:
  "qualifier \<in> set (allowed_qualifiers (fo_cls self)) \<Longrightarrow> check_qualifier self qualifier = (Inr (), self)"
  by (simp add: check_qualifier_def)

lemma get_q_rejected:
  assumes "qualifier \<notin> set (allowed_qualifiers (fo_cls self))"
  shows "get_q X self qualifier v invert partial = (Inl (unsupported_qualifier self qualifier), self)"
proof -
  have cq: "check_qualifier self qualifier = (Inl (unsupported_qualifier self qualifier), self)"
    using assms by (simp add: check_qualifier_def)
  show ?thesis
    by (simp add: get_q_def FieldFilter_get_q_def DateTimeFieldFilter_get_q_def cq)
qed

lemma get_q_range_count:
  assumes "Some ''range'' \<in> set (allowed_qualifiers (fo_cls self))"
    and "length (split_comma v) \<noteq> 2"
  shows "get_q X self (Some ''range'') v invert partial = (Inl (range_count_error self), self)"
proof -
  have cq: "check_qualifier self (Some ''range'') = (Inr (), self)"
    using assms(1) by (rule check_qualifier_allowed)
  have sv: "split_values self (Some ''range'') v = Inl (range_count_error self)"
    using assms(2) by (simp add: split_values_def in_or_range_def)
  show ?thesis
    by (simp add: get_q_def FieldFilter_get_q_def DateTimeFieldFilter_get_q_def cq sv)
qed

lemma get_q_isnull:
  assumes "Some ''isnull'' \<in> set (allowed_qualifiers (fo_cls self))"
  shows "get_q X self (Some ''isnull'') v invert partial =
           (Inr (make_q self (Some ''isnull'') invert partial (VBool True)), self)"
proof -
  have cq: "check_qualifier self (Some ''isnull'') = (Inr (), self)"
    using assms by (rule check_qualifier_allowed)
  have sv: "split_values self (Some ''isnull'') v = Inr [v]"
    by (simp add: split_values_def in_or_range_def)
  show ?thesis
    by (simp add: get_q_def FieldFilter_get_q_def DateTimeFieldFilter_get_q_def cq sv)
qed

lemma split_values_list:
  assumes "in_or_range qualifier"
    and "qualifier = Some ''range'' \<Longrightarrow> length (split_comma v) = 2"
  shows "split_values self qualifier v = Inr (split_comma v)"
  using assms by (auto simp: split_values_def)

lemma in_or_range_not_isnull: "in_or_range qualifier \<Longrightarrow> qualifier \<noteq> Some ''isnull''"
  by (auto simp: in_or_range_def)

lemma FieldFilter_get_q_list:
  assumes "qualifier \<in> set (allowed_qualifiers (fo_cls self))"
    and "in_or_range qualifier"
    and "qualifier = Some ''range'' \<Longrightarrow> length (split_comma v) = 2"
    and "clean_values X self qualifier (split_comma v) = (Inr cleaned, self')"
  shows "FieldFilter_get_q X self qualifier v invert partial =
           (Inr (make_q self' qualifier invert partial (VList cleaned)), self')"
proof -
  have cq: "check_qualifier self qualifier = (Inr (), self)"
    using assms(1) by (rule check_qualifier_allowed)
  have sv: "split_values self qualifier v = Inr (split_comma v)"
    using assms(2,3) by (rule split_values_list)
  show ?thesis
    by (simp add: FieldFilter_get_q_def cq sv assms(2,4) in_or_range_not_isnull [OF assms(2)])
qed

lemma DateTimeFieldFilter_get_q_list:
  assumes "Some q \<in> set (allowed_qualifiers (fo_cls self))"
    and "in_or_range (Some q)"
    and "q = ''range'' \<Longrightarrow> length (split_comma v) = 2"
    and "clean_values X self (Some q) (split_comma v) = (Inr cleaned, self')"
  shows "DateTimeFieldFilter_get_q X self (Some q) v invert partial =
           (if length (remdups (map type_of cleaned)) \<noteq> 1
            then (Inl (type_mismatch_error self'), self')
            else if is_bare_date (hd cleaned)
            then (Inr (make_q self' (Some (''date__'' @ q)) invert partial (VList cleaned)), self')
            else (Inr (make_q self' (Some q) invert partial (VList cleaned)), self'))"
proof -
  have cq: "check_qualifier self (Some q) = (Inr (), self)"
    using assms(1) by (rule check_qualifier_allowed)
  have sv: "split_values self (Some q) v = Inr (split_comma v)"
    using assms(2,3) by (intro split_values_list) simp_all
  have ni: "Some q \<noteq> Some ''isnull''"
    using assms(2) by (rule in_or_range_not_isnull)
  show ?thesis
  proof (cases cleaned)
    case Nil
    then show ?thesis
      using ni by (simp add: DateTimeFieldFilter_get_q_def cq sv assms(2,4))
  next
    case (Cons c0 rest)
    then show ?thesis
      using ni by (simp add: DateTimeFieldFilter_get_q_def cq sv assms(2,4))
  qed
qed

lemma get_q_single:
  assumes "qualifier \<in> set (allowed_qualifiers (fo_cls self))"
    and "\<not> in_or_range qualifier" and "qualifier \<noteq> Some ''isnull''"
    and "clean_value X self qualifier v = (Inr cleaned, self')"
  shows "get_q X self qualifier v invert partial =
           (Inr (make_q self'
                   (if fo_cls self = DateTimeFieldFilter \<and> is_bare_date cleaned
                    then date_qualifier qualifier else qualifier)
                   invert partial cleaned), self')"
proof -
  have cq: "check_qualifier self qualifier = (Inr (), self)"
    using assms(1) by (rule check_qualifier_allowed)
  have sv: "split_values self qualifier v = Inr [v]"
    using assms(2) by (simp add: split_values_def)
  show ?thesis
    by (simp add: get_q_def FieldFilter_get_q_def DateTimeFieldFilter_get_q_def cq sv assms(2,3,4)
        first_value_def)
qed

text \<open>
  C2: a qualifier that the class of the filter does not allow makes
  \<^verbatim>\<open>check_qualifier\<close> fail with the error that names the qualifier, the class and
  the field. \<^verbatim>\<open>get_q\<close> fails with it whatever the raw value is, and the object
  is as before: nothing was split or cleaned. The check never changes the object.
\<close>

theorem unsupported_qualifier_rejected:
  "snd (check_qualifier self qualifier) = self \<and>
   unsupported_qualifier self qualifier =
     BinderRequestError
       (''Qualifier '' @ format_qualifier qualifier @ '' not supported for type ''
          @ filter_cls_name (fo_cls self) @ '' ('' @ field_class_name (field_cls (fo_field self))
          @ '' {'' @ model_name (fo_field self) @ ''}.{'' @ name (fo_field self) @ ''}).'') \<and>
   (qualifier \<notin> set (allowed_qualifiers (fo_cls self)) \<longrightarrow>
      check_qualifier self qualifier = (Inl (unsupported_qualifier self qualifier), self) \<and>
      get_q X self qualifier v invert partial = (Inl (unsupported_qualifier self qualifier), self))"
proof (intro conjI impI)
  show "snd (check_qualifier self qualifier) = self"
    by (simp add: check_qualifier_def)
  show "unsupported_qualifier self qualifier =
     BinderRequestError
       (''Qualifier '' @ format_qualifier qualifier @ '' not supported for type ''
          @ filter_cls_name (fo_cls self) @ '' ('' @ field_class_name (field_cls (fo_field self))
          @ '' {'' @ model_name (fo_field self) @ ''}.{'' @ name (fo_field self) @ ''}).'')"
    by (simp add: unsupported_qualifier_def field_description_def)
next
  assume "qualifier \<notin> set (allowed_qualifiers (fo_cls self))"
  then show "check_qualifier self qualifier = (Inl (unsupported_qualifier self qualifier), self)"
    by (simp add: check_qualifier_def)
next
  assume "qualifier \<notin> set (allowed_qualifiers (fo_cls self))"
  then show "get_q X self qualifier v invert partial = (Inl (unsupported_qualifier self qualifier), self)"
    by (rule get_q_rejected)
qed

theorem unsupported_qualifier_rejected_witness:
  "check_qualifier text_filter (Some ''range'') =
     (Inl (BinderRequestError
            ''Qualifier range not supported for type TextFieldFilter (CharField {Animal}.{name}).''),
      text_filter) \<and>
   get_q example_externals text_filter (Some ''range'') ''a,b,c'' False [] =
     (Inl (BinderRequestError
            ''Qualifier range not supported for type TextFieldFilter (CharField {Animal}.{name}).''),
      text_filter) \<and>
   get_q example_externals int_array_filter (Some ''in'') ''1,x'' False [] =
     (Inl (BinderRequestError
            ''Qualifier in not supported for type ArrayFieldFilter (ArrayField {Animal}.{tags}).''),
      int_array_filter)"
proof -
  have a: "Some ''range'' \<notin> set (allowed_qualifiers (fo_cls text_filter))"
    by (simp add: text_filter_def new_filter_def)
  have b: "Some ''in'' \<notin> set (allowed_qualifiers (fo_cls int_array_filter))"
    by (simp add: int_array_filter_def new_filter_def)
  have m1: "unsupported_qualifier text_filter (Some ''range'') = BinderRequestError
            ''Qualifier range not supported for type TextFieldFilter (CharField {Animal}.{name}).''"
    by (simp add: unsupported_qualifier_def field_description_def text_filter_def new_filter_def)
  have m2: "unsupported_qualifier int_array_filter (Some ''in'') = BinderRequestError
            ''Qualifier in not supported for type ArrayFieldFilter (ArrayField {Animal}.{tags}).''"
    by (simp add: unsupported_qualifier_def field_description_def int_array_filter_def new_filter_def)
  from unsupported_qualifier_rejected [of text_filter "Some ''range''" example_externals "''a,b,c''" False "[]"]
    unsupported_qualifier_rejected [of int_array_filter "Some ''in''" example_externals "''1,x''" False "[]"]
    a b m1 m2
  show ?thesis by simp
qed

text \<open>
  C4: where the class allows \<^verbatim>\<open>isnull\<close>, the predicate of \<^verbatim>\<open>get_q\<close> holds
  the value \<^verbatim>\<open>True\<close> for every raw value and every choice of the library parsers:
  the raw value is not read.
\<close>

theorem isnull_ignores_value:
  assumes "Some ''isnull'' \<in> set (allowed_qualifiers (fo_cls self))"
  shows "get_q X self (Some ''isnull'') v invert partial =
           (Inr (build_q invert (partial @ name (fo_field self) @ ''__isnull'') (VBool True)), self)"
  using get_q_isnull [OF assms] by (simp add: make_q_def suffix_def)

theorem isnull_ignores_value_witness:
  "get_q example_externals int_filter (Some ''isnull'') ''not a number'' False ''zoo__'' =
     (Inr (Q ''zoo__age__isnull'' (VBool True)), int_filter) \<and>
   get_q example_externals int_filter (Some ''isnull'') [] True [] =
     (Inr (Not_Q ''age__isnull'' (VBool True)), int_filter)"
proof -
  have a: "Some ''isnull'' \<in> set (allowed_qualifiers (fo_cls int_filter))"
    by (simp add: int_filter_def new_filter_def ordered_qualifiers_def)
  have n: "name (fo_field int_filter) = ''age''"
    by (simp add: int_filter_def new_filter_def)
  from isnull_ignores_value [OF a, of example_externals "''not a number''" False "''zoo__''"]
    isnull_ignores_value [OF a, of example_externals "[]" True "[]"] n
  show ?thesis by (simp add: build_q_def)
qed

lemma range_allowed_not_array:
  "Some ''range'' \<in> set (allowed_qualifiers cls) \<Longrightarrow> cls \<noteq> ArrayFieldFilter"
  by (cases cls) auto

lemma clean_values_all_right:
  assumes "fo_cls self \<noteq> ArrayFieldFilter"
    and "map (\<lambda>w. fst (clean_value X self qualifier w)) ws = map Inr cs"
  shows "clean_values X self qualifier ws = (Inr cs, self)"
  unfolding clean_values_def
  by (rule map_raise_all_right) (simp_all add: clean_value_keeps_self assms)

text \<open>
  C3: with the qualifier \<^verbatim>\<open>range\<close>, \<^verbatim>\<open>get_q\<close> of any filter returns
  a predicate only when the raw value splits at its commas into exactly two elements. For
  a filter that has the qualifier \<^verbatim>\<open>range\<close>, any other count fails with the
  error of the count, and two elements that clean give the predicate over the list of the
  two cleaned values in the order of the input, the first one first.
\<close>

theorem range_needs_two_values:
  "(fst (get_q X self (Some ''range'') v invert partial) = Inr p \<longrightarrow> length (split_comma v) = 2) \<and>
   (Some ''range'' \<in> set (allowed_qualifiers (fo_cls self)) \<longrightarrow>
      (length (split_comma v) \<noteq> 2 \<longrightarrow>
         get_q X self (Some ''range'') v invert partial =
           (Inl (BinderRequestError
                  (''Range requires exactly 2 values for '' @ field_description self @ ''.'')), self)) \<and>
      (split_comma v = [lower, upper] \<and>
       fst (clean_value X self (Some ''range'') lower) = Inr cl \<and>
       fst (clean_value X self (Some ''range'') upper) = Inr cu \<and>
       (fo_cls self = DateTimeFieldFilter \<longrightarrow> type_of cl = type_of cu) \<longrightarrow>
         get_q X self (Some ''range'') v invert partial =
           (Inr (build_q invert
                   (partial @ name (fo_field self) @
                      (if fo_cls self = DateTimeFieldFilter \<and> is_bare_date cl
                       then ''__date__range'' else ''__range''))
                   (VList [cl, cu])), self)))"
proof (intro conjI impI)
  assume r: "fst (get_q X self (Some ''range'') v invert partial) = Inr p"
  show "length (split_comma v) = 2"
  proof (rule ccontr)
    assume n: "length (split_comma v) \<noteq> 2"
    show False
    proof (cases "Some ''range'' \<in> set (allowed_qualifiers (fo_cls self))")
      case True
      then show False using r get_q_range_count [OF True n, of X invert partial] by simp
    next
      case False
      then show False using r get_q_rejected [OF False, of X v invert partial] by simp
    qed
  qed
next
  assume "Some ''range'' \<in> set (allowed_qualifiers (fo_cls self))"
    and "length (split_comma v) \<noteq> 2"
  then show "get_q X self (Some ''range'') v invert partial =
           (Inl (BinderRequestError
                  (''Range requires exactly 2 values for '' @ field_description self @ ''.'')), self)"
    using get_q_range_count [of self v X invert partial] by (simp add: range_count_error_def)
next
  assume al: "Some ''range'' \<in> set (allowed_qualifiers (fo_cls self))"
    and h: "split_comma v = [lower, upper] \<and>
       fst (clean_value X self (Some ''range'') lower) = Inr cl \<and>
       fst (clean_value X self (Some ''range'') upper) = Inr cu \<and>
       (fo_cls self = DateTimeFieldFilter \<longrightarrow> type_of cl = type_of cu)"
  have na: "fo_cls self \<noteq> ArrayFieldFilter" using al by (rule range_allowed_not_array)
  have ior: "in_or_range (Some ''range'')" by (simp add: in_or_range_def)
  have len: "length (split_comma v) = 2" using h by simp
  have cv: "clean_values X self (Some ''range'') (split_comma v) = (Inr [cl, cu], self)"
    using h by (intro clean_values_all_right na) simp
  show "get_q X self (Some ''range'') v invert partial =
           (Inr (build_q invert
                   (partial @ name (fo_field self) @
                      (if fo_cls self = DateTimeFieldFilter \<and> is_bare_date cl
                       then ''__date__range'' else ''__range''))
                   (VList [cl, cu])), self)"
  proof (cases "fo_cls self = DateTimeFieldFilter")
    case True
    have ty: "type_of cl = type_of cu" using h True by simp
    show ?thesis
      using DateTimeFieldFilter_get_q_list [OF al ior len cv, of invert partial] True ty
      by (simp add: get_q_def make_q_def suffix_def)
  next
    case False
    show ?thesis
      using FieldFilter_get_q_list [OF al ior len cv, of invert partial] False
      by (simp add: get_q_def make_q_def suffix_def)
  qed
qed

lemma int_filter_clean:
  "py_int w = Some i \<Longrightarrow> clean_value X int_filter qualifier w = (Inr (VInt i), int_filter)"
  by (simp add: int_filter_def new_filter_def clean_value.simps)

lemma py_int_5: "py_int ''5'' = Some 5"
  by (simp add: py_int_def int_space_def is_digit_def digits_value_def digit_val_def)

lemma py_int_1: "py_int ''1'' = Some 1"
  by (simp add: py_int_def int_space_def is_digit_def digits_value_def digit_val_def)

theorem range_needs_two_values_witness:
  "get_q example_externals int_filter (Some ''range'') ''5,1'' False [] =
     (Inr (Q ''age__range'' (VList [VInt 5, VInt 1])), int_filter) \<and>
   get_q example_externals int_filter (Some ''range'') ''5'' False [] =
     (Inl (BinderRequestError ''Range requires exactly 2 values for IntegerField {Animal}.{age}.''),
      int_filter) \<and>
   get_q example_externals int_filter (Some ''range'') ''1,5,1'' False [] =
     (Inl (BinderRequestError ''Range requires exactly 2 values for IntegerField {Animal}.{age}.''),
      int_filter)"
proof -
  have al: "Some ''range'' \<in> set (allowed_qualifiers (fo_cls int_filter))"
    by (simp add: int_filter_def new_filter_def ordered_qualifiers_def)
  have f: "fo_cls int_filter \<noteq> DateTimeFieldFilter" "name (fo_field int_filter) = ''age''"
    "field_description int_filter = ''IntegerField {Animal}.{age}''"
    by (simp_all add: int_filter_def new_filter_def field_description_def)
  have s2: "split_comma ''5,1'' = [''5'', ''1'']" by simp
  have s1: "length (split_comma ''5'') \<noteq> 2" by simp
  have s3: "length (split_comma ''1,5,1'') \<noteq> 2" by simp
  have c5: "fst (clean_value example_externals int_filter (Some ''range'') ''5'') = Inr (VInt 5)"
    by (simp add: int_filter_clean [OF py_int_5])
  have c1: "fst (clean_value example_externals int_filter (Some ''range'') ''1'') = Inr (VInt 1)"
    by (simp add: int_filter_clean [OF py_int_1])
  from range_needs_two_values [of example_externals int_filter "''5,1''" False "[]" "Q [] VNone" "''5''" "''1''" "VInt 5" "VInt 1"]
    range_needs_two_values [of example_externals int_filter "''5''" False "[]"]
    range_needs_two_values [of example_externals int_filter "''1,5,1''" False "[]"]
    al f s2 s1 s3 c5 c1
  show ?thesis by (simp add: build_q_def)
qed

lemma split_comma_not_Nil: "split_comma v \<noteq> []"
  by (cases v) (simp_all split: list.split)

text \<open>
  C1: a filter of a \<^verbatim>\<open>DateTimeField\<close> whose value cleans to a bare date puts
  \<^verbatim>\<open>date__\<close> before the qualifier in the key of the predicate, and
  \<^verbatim>\<open>date\<close> alone when there is no qualifier; so it does for \<^verbatim>\<open>in\<close> and
  \<^verbatim>\<open>range\<close> when every element cleans to a bare date.
\<close>

theorem bare_date_qualifier_rewritten:
  assumes "fo_cls self = DateTimeFieldFilter"
  shows
    "(qualifier \<in> set (allowed_qualifiers DateTimeFieldFilter) \<and> \<not> in_or_range qualifier \<and>
      qualifier \<noteq> Some ''isnull'' \<and> fst (clean_value X self qualifier v) = Inr (VDate d) \<longrightarrow>
        get_q X self qualifier v invert partial =
          (Inr (build_q invert
                  (partial @ name (fo_field self) @
                     (case qualifier of None \<Rightarrow> ''__date'' | Some q \<Rightarrow> ''__date__'' @ q))
                  (VDate d)), self)) \<and>
     (in_or_range (Some q) \<and> split_values self (Some q) v = Inr ws \<and>
      map (\<lambda>w. fst (clean_value X self (Some q) w)) ws = map (\<lambda>d. Inr (VDate d)) ds \<longrightarrow>
        get_q X self (Some q) v invert partial =
          (Inr (build_q invert (partial @ name (fo_field self) @ ''__date__'' @ q)
                  (VList (map VDate ds))), self))"
proof (intro conjI impI)
  assume h: "qualifier \<in> set (allowed_qualifiers DateTimeFieldFilter) \<and> \<not> in_or_range qualifier \<and>
      qualifier \<noteq> Some ''isnull'' \<and> fst (clean_value X self qualifier v) = Inr (VDate d)"
  have na: "fo_cls self \<noteq> ArrayFieldFilter" using assms by simp
  have cv: "clean_value X self qualifier v = (Inr (VDate d), self)"
    using h clean_value_keeps_self [OF na, of X qualifier v]
    by (cases "clean_value X self qualifier v") simp
  have al: "qualifier \<in> set (allowed_qualifiers (fo_cls self))" using h assms by simp
  have sfx: "suffix (date_qualifier qualifier) =
               (case qualifier of None \<Rightarrow> ''__date'' | Some q \<Rightarrow> ''__date__'' @ q)"
    using h by (auto simp: ordered_qualifiers_def suffix_def date_qualifier_def)
  show "get_q X self qualifier v invert partial =
          (Inr (build_q invert
                  (partial @ name (fo_field self) @
                     (case qualifier of None \<Rightarrow> ''__date'' | Some q \<Rightarrow> ''__date__'' @ q))
                  (VDate d)), self)"
    using get_q_single [OF al _ _ cv, of invert partial] h assms sfx
    by (simp add: make_q_def)
next
  assume h: "in_or_range (Some q) \<and> split_values self (Some q) v = Inr ws \<and>
      map (\<lambda>w. fst (clean_value X self (Some q) w)) ws = map (\<lambda>d. Inr (VDate d)) ds"
  have na: "fo_cls self \<noteq> ArrayFieldFilter" using assms by simp
  have ior: "in_or_range (Some q)" using h by simp
  have al: "Some q \<in> set (allowed_qualifiers (fo_cls self))"
    using ior assms by (auto simp: in_or_range_def ordered_qualifiers_def)
  have sv: "ws = split_comma v" and len: "q = ''range'' \<Longrightarrow> length (split_comma v) = 2"
    using h by (auto simp: split_values_def split: if_splits)
  have m: "map (\<lambda>w. fst (clean_value X self (Some q) w)) (split_comma v) = map Inr (map VDate ds)"
    using h unfolding sv by simp
  have cv: "clean_values X self (Some q) (split_comma v) = (Inr (map VDate ds), self)"
    using na m by (rule clean_values_all_right)
  have "length ds = length (split_comma v)"
    using arg_cong [OF m, of length] by simp
  then have ne: "ds \<noteq> []" using split_comma_not_Nil [of v] by auto
  then obtain d0 ds' where ds: "ds = d0 # ds'" by (cases ds) auto
  have ty: "remdups (map type_of (map VDate ds)) = [TDate]"
    unfolding ds by (induction ds') simp_all
  show "get_q X self (Some q) v invert partial =
          (Inr (build_q invert (partial @ name (fo_field self) @ ''__date__'' @ q)
                  (VList (map VDate ds))), self)"
    using DateTimeFieldFilter_get_q_list [OF al ior len cv, of invert partial] assms ty
    by (simp add: get_q_def make_q_def suffix_def ds)
qed

lemmas regex_defs =
  date_re_match_def datetime_re_match_def date_prefix_def clock_prefix_def digits_n_def
  is_digit_def is_alpha_def at_end_def fraction_def datetime_zone_def time_zone_def
  time_re_match_def

lemma datetime_filter_bare_date:
  assumes "\<not> datetime_re_match w" and "date_re_match w" and "example_date w = Parsed d"
  shows "clean_value example_externals datetime_filter qualifier w =
           (Inr (VDate d), datetime_filter)"
  using assms
  by (simp add: datetime_filter_def new_filter_def clean_value.simps example_externals_def)

lemma datetime_filter_timestamp:
  assumes "datetime_re_match w" and "example_datetime w = Parsed t"
  shows "clean_value example_externals datetime_filter qualifier w =
           (Inr (VDateTime t), datetime_filter)"
  using assms
  by (simp add: datetime_filter_def new_filter_def clean_value.simps example_externals_def)

lemma example_2020_01_02:
  "\<not> datetime_re_match ''2020-01-02''" "date_re_match ''2020-01-02''"
  "example_date ''2020-01-02'' = Parsed (Date 2020 1 2)"
  by (simp_all add: regex_defs example_date_def digits_value_def digit_val_def)

lemma example_2020_01_03:
  "\<not> datetime_re_match ''2020-01-03''" "date_re_match ''2020-01-03''"
  "example_date ''2020-01-03'' = Parsed (Date 2020 1 3)"
  by (simp_all add: regex_defs example_date_def digits_value_def digit_val_def)

lemma example_timestamp:
  "datetime_re_match ''2020-01-03T10:00:00Z''"
  "example_datetime ''2020-01-03T10:00:00Z'' = Parsed (DateTime (Date 2020 1 3) 10 0 0 0 None)"
  by (simp_all add: regex_defs example_datetime_def example_date_def digits_value_def digit_val_def)

theorem bare_date_qualifier_rewritten_witness:
  "get_q example_externals datetime_filter (Some ''gt'') ''2020-01-02'' False ''zoo__'' =
     (Inr (Q ''zoo__birth__date__gt'' (VDate (Date 2020 1 2))), datetime_filter) \<and>
   get_q example_externals datetime_filter None ''2020-01-02'' True [] =
     (Inr (Not_Q ''birth__date'' (VDate (Date 2020 1 2))), datetime_filter) \<and>
   get_q example_externals datetime_filter (Some ''in'') ''2020-01-03,2020-01-02'' False [] =
     (Inr (Q ''birth__date__in'' (VList [VDate (Date 2020 1 3), VDate (Date 2020 1 2)])),
      datetime_filter)"
proof -
  have c: "fo_cls datetime_filter = DateTimeFieldFilter" "name (fo_field datetime_filter) = ''birth''"
    by (simp_all add: datetime_filter_def new_filter_def)
  have d2: "\<And>q. clean_value example_externals datetime_filter q ''2020-01-02'' =
              (Inr (VDate (Date 2020 1 2)), datetime_filter)"
    by (rule datetime_filter_bare_date [OF example_2020_01_02])
  have d3: "\<And>q. clean_value example_externals datetime_filter q ''2020-01-03'' =
              (Inr (VDate (Date 2020 1 3)), datetime_filter)"
    by (rule datetime_filter_bare_date [OF example_2020_01_03])
  have s: "split_values datetime_filter (Some ''in'') ''2020-01-03,2020-01-02'' =
             Inr [''2020-01-03'', ''2020-01-02'']"
    by (simp add: split_values_def in_or_range_def)
  have m: "map (\<lambda>w. fst (clean_value example_externals datetime_filter (Some ''in'') w))
             [''2020-01-03'', ''2020-01-02''] =
           map (\<lambda>d. Inr (VDate d)) [Date 2020 1 3, Date 2020 1 2]"
    by (simp only: list.map d2 d3 fst_conv)
  from bare_date_qualifier_rewritten [OF c(1), where qualifier = "Some ''gt''"
        and X = example_externals and v = "''2020-01-02''" and d = "Date 2020 1 2"
        and invert = False and partial = "''zoo__''" and q = "''in''"
        and ws = "[''2020-01-03'', ''2020-01-02'']" and ds = "[Date 2020 1 3, Date 2020 1 2]"]
    bare_date_qualifier_rewritten [OF c(1), where qualifier = None
        and X = example_externals and v = "''2020-01-02''" and d = "Date 2020 1 2"
        and invert = True and partial = "[]" and q = "''in''"
        and ws = "[''2020-01-03'', ''2020-01-02'']" and ds = "[Date 2020 1 3, Date 2020 1 2]"]
    bare_date_qualifier_rewritten [OF c(1), where qualifier = None
        and X = example_externals and v = "''2020-01-03,2020-01-02''" and d = "Date 2020 1 2"
        and invert = False and partial = "[]" and q = "''in''"
        and ws = "[''2020-01-03'', ''2020-01-02'']" and ds = "[Date 2020 1 3, Date 2020 1 2]"]
    d2 s m c(2)
  show ?thesis
    by (simp add: ordered_qualifiers_def in_or_range_def build_q_def)
qed

text \<open>
  C5: a filter of a \<^verbatim>\<open>DateTimeField\<close> with the qualifier \<^verbatim>\<open>in\<close> or
  \<^verbatim>\<open>range\<close> whose elements, as \<^verbatim>\<open>get_q\<close> splits them, all clean, to
  values that are not of one single type, fails with the error that the values must be the
  same types.
\<close>

theorem mixed_types_rejected:
  assumes "fo_cls self = DateTimeFieldFilter"
    and "in_or_range (Some q)"
    and "split_values self (Some q) v = Inr ws"
    and "map (\<lambda>w. fst (clean_value X self (Some q) w)) ws = map Inr cleaned"
    and "card (type_of ` set cleaned) \<noteq> 1"
  shows "get_q X self (Some q) v invert partial =
           (Inl (ValidationError
                  (''Values for filter {'' @ model_name (fo_field self) @ ''}.{''
                     @ name (fo_field self) @ ''} must be the same types.'')), self)"
proof -
  have na: "fo_cls self \<noteq> ArrayFieldFilter" using assms(1) by simp
  have al: "Some q \<in> set (allowed_qualifiers (fo_cls self))"
    using assms(1,2) by (auto simp: in_or_range_def ordered_qualifiers_def)
  have sv: "ws = split_comma v" and len: "q = ''range'' \<Longrightarrow> length (split_comma v) = 2"
    using assms(2,3) by (auto simp: split_values_def split: if_splits)
  have cv: "clean_values X self (Some q) (split_comma v) = (Inr cleaned, self)"
    using na assms(4) unfolding sv by (rule clean_values_all_right)
  have "length (remdups (map type_of cleaned)) = card (type_of ` set cleaned)"
    by (simp add: length_remdups_card_conv)
  then have ty: "length (remdups (map type_of cleaned)) \<noteq> 1" using assms(5) by simp
  show ?thesis
    using DateTimeFieldFilter_get_q_list [OF al assms(2) len cv, of invert partial] assms(1) ty
    by (simp add: get_q_def type_mismatch_error_def)
qed

theorem mixed_types_rejected_witness:
  "get_q example_externals datetime_filter (Some ''in'') ''2020-01-02,2020-01-03T10:00:00Z'' False [] =
     (Inl (ValidationError ''Values for filter {Animal}.{birth} must be the same types.''),
      datetime_filter) \<and>
   get_q example_externals datetime_filter (Some ''range'') ''2020-01-03T10:00:00Z,2020-01-02'' False [] =
     (Inl (ValidationError ''Values for filter {Animal}.{birth} must be the same types.''),
      datetime_filter)"
proof -
  have c: "fo_cls datetime_filter = DateTimeFieldFilter"
    "name (fo_field datetime_filter) = ''birth''" "model_name (fo_field datetime_filter) = ''Animal''"
    by (simp_all add: datetime_filter_def new_filter_def)
  have d2: "\<And>q. clean_value example_externals datetime_filter q ''2020-01-02'' =
              (Inr (VDate (Date 2020 1 2)), datetime_filter)"
    by (rule datetime_filter_bare_date [OF example_2020_01_02])
  have t3: "\<And>q. clean_value example_externals datetime_filter q ''2020-01-03T10:00:00Z'' =
              (Inr (VDateTime (DateTime (Date 2020 1 3) 10 0 0 0 None)), datetime_filter)"
    by (rule datetime_filter_timestamp [OF example_timestamp])
  have v1: "split_values datetime_filter (Some ''in'') ''2020-01-02,2020-01-03T10:00:00Z'' =
              Inr [''2020-01-02'', ''2020-01-03T10:00:00Z'']"
    by (simp add: split_values_def in_or_range_def)
  have v2: "split_values datetime_filter (Some ''range'') ''2020-01-03T10:00:00Z,2020-01-02'' =
              Inr [''2020-01-03T10:00:00Z'', ''2020-01-02'']"
    by (simp add: split_values_def in_or_range_def)
  have m1: "map (\<lambda>w. fst (clean_value example_externals datetime_filter (Some ''in'') w))
             [''2020-01-02'', ''2020-01-03T10:00:00Z''] =
           map Inr [VDate (Date 2020 1 2), VDateTime (DateTime (Date 2020 1 3) 10 0 0 0 None)]"
    by (simp only: list.map d2 t3 fst_conv)
  have m2: "map (\<lambda>w. fst (clean_value example_externals datetime_filter (Some ''range'') w))
             [''2020-01-03T10:00:00Z'', ''2020-01-02''] =
           map Inr [VDateTime (DateTime (Date 2020 1 3) 10 0 0 0 None), VDate (Date 2020 1 2)]"
    by (simp only: list.map d2 t3 fst_conv)
  have k1: "card (type_of ` set [VDate (Date 2020 1 2), VDateTime (DateTime (Date 2020 1 3) 10 0 0 0 None)]) \<noteq> 1"
    by simp
  have k2: "card (type_of ` set [VDateTime (DateTime (Date 2020 1 3) 10 0 0 0 None), VDate (Date 2020 1 2)]) \<noteq> 1"
    by simp
  have i1: "in_or_range (Some ''in'')" and i2: "in_or_range (Some ''range'')"
    by (simp_all add: in_or_range_def)
  from mixed_types_rejected [OF c(1) i1 v1 m1 k1, of False "[]"]
    mixed_types_rejected [OF c(1) i2 v2 m2 k2, of False "[]"] c(2,3)
  show ?thesis by simp
qed

text \<open>
  C6, as amended: a qualifier other than \<^verbatim>\<open>in\<close> and \<^verbatim>\<open>range\<close> takes the
  raw value whole as its one value. Where the class allows the qualifier and it is not
  \<^verbatim>\<open>isnull\<close>, that value goes to \<^verbatim>\<open>clean_value\<close>, empty or not, and
  \<^verbatim>\<open>get_q\<close> returns the predicate over what it cleans to, or the error that the
  cleaning raises; the error "may not be empty" stands only for an
  \<^verbatim>\<open>IndexError\<close> of the cleaning.
\<close>

theorem single_value_is_cleaned:
  "(\<not> in_or_range qualifier \<longrightarrow> split_values self qualifier v = Inr [v]) \<and>
   (qualifier \<in> set (allowed_qualifiers (fo_cls self)) \<and> \<not> in_or_range qualifier \<and>
    qualifier \<noteq> Some ''isnull'' \<longrightarrow>
      get_q X self qualifier v invert partial =
        (case clean_value X self qualifier v of
           (Inl e, self') \<Rightarrow> (Inl (if e = IndexError then empty_value_error self' else e), self')
         | (Inr cleaned, self') \<Rightarrow>
             (Inr (make_q self'
                     (if fo_cls self = DateTimeFieldFilter \<and> is_bare_date cleaned
                      then date_qualifier qualifier else qualifier)
                     invert partial cleaned), self')))"
proof (intro conjI impI)
  assume "\<not> in_or_range qualifier"
  then show "split_values self qualifier v = Inr [v]" by (simp add: split_values_def)
next
  assume h: "qualifier \<in> set (allowed_qualifiers (fo_cls self)) \<and> \<not> in_or_range qualifier \<and>
    qualifier \<noteq> Some ''isnull''"
  have cq: "check_qualifier self qualifier = (Inr (), self)"
    using h by (intro check_qualifier_allowed) simp
  have sv: "split_values self qualifier v = Inr [v]"
    using h by (simp add: split_values_def)
  obtain r self' where cv: "clean_value X self qualifier v = (r, self')"
    by (cases "clean_value X self qualifier v")
  show "get_q X self qualifier v invert partial =
        (case clean_value X self qualifier v of
           (Inl e, self') \<Rightarrow> (Inl (if e = IndexError then empty_value_error self' else e), self')
         | (Inr cleaned, self') \<Rightarrow>
             (Inr (make_q self'
                     (if fo_cls self = DateTimeFieldFilter \<and> is_bare_date cleaned
                      then date_qualifier qualifier else qualifier)
                     invert partial cleaned), self'))"
  proof (cases r)
    case (Inr cleaned)
    then show ?thesis
      using get_q_single [of qualifier self X v cleaned self' invert partial] h cv by simp
  next
    case (Inl e)
    then show ?thesis
      using h
      by (cases e)
        (simp_all add: get_q_def FieldFilter_get_q_def DateTimeFieldFilter_get_q_def cq sv cv
          first_value_def)
  qed
qed

lemma text_filter_facts:
  "fo_cls text_filter = TextFieldFilter" "name (fo_field text_filter) = ''name''"
  "clean_value X text_filter qualifier w = (Inr (VStr w), text_filter)"
  by (simp_all add: text_filter_def new_filter_def clean_value.simps)

lemma int_array_filter_empty:
  "clean_value X int_array_filter qualifier [] =
     (Inr (VList []),
      FilterObj ArrayFieldFilter
        (ModelField ArrayField ''Animal'' ''tags''
           (Some (ModelField IntegerField ''Animal'' ''tags'' None)))
        (Some IntegerFieldFilter))"
  by (simp add: int_array_filter_def new_filter_def clean_value.simps get_field_filter_def
      subclasses_def Let_def)

lemma int_filter_empty:
  "clean_value X int_filter qualifier [] =
     (Inl (ValidationError ''Invalid value {} for IntegerField {Animal}.{age}.''), int_filter)"
proof -
  have e: "py_int [] = None" by (simp add: py_int_def)
  show ?thesis
    by (simp add: int_filter_def new_filter_def clean_value.simps e invalid_value_def
        field_description_def)
qed

theorem single_value_is_cleaned_witness:
  "split_values text_filter (Some ''icontains'') ''a,b'' = Inr [''a,b''] \<and>
   get_q example_externals text_filter (Some ''icontains'') ''a,b'' False [] =
     (Inr (Q ''name__icontains'' (VStr ''a,b'')), text_filter) \<and>
   get_q example_externals text_filter None [] False [] =
     (Inr (Q ''name'' (VStr [])), text_filter) \<and>
   fst (get_q example_externals int_array_filter (Some ''contains'') [] False []) =
     Inr (Q ''tags__contains'' (VList [])) \<and>
   get_q example_externals int_filter (Some ''gt'') [] False [] =
     (Inl (ValidationError ''Invalid value {} for IntegerField {Animal}.{age}.''), int_filter)"
proof -
  have a: "Some ''icontains'' \<in> set (allowed_qualifiers (fo_cls text_filter))"
    "None \<in> set (allowed_qualifiers (fo_cls text_filter))"
    "Some ''contains'' \<in> set (allowed_qualifiers (fo_cls int_array_filter))"
    "Some ''gt'' \<in> set (allowed_qualifiers (fo_cls int_filter))"
    by (simp_all add: text_filter_def int_array_filter_def int_filter_def new_filter_def
        ordered_qualifiers_def)
  have c: "fo_cls int_array_filter = ArrayFieldFilter" "fo_cls int_filter = IntegerFieldFilter"
    by (simp_all add: int_array_filter_def int_filter_def new_filter_def)
  have n: "\<not> in_or_range (Some ''icontains'')" "\<not> in_or_range None"
    "\<not> in_or_range (Some ''contains'')" "\<not> in_or_range (Some ''gt'')"
    by (simp_all add: in_or_range_def)
  from single_value_is_cleaned [of "Some ''icontains''" text_filter "''a,b''" example_externals False "[]"]
    single_value_is_cleaned [of None text_filter "[]" example_externals False "[]"]
    single_value_is_cleaned [of "Some ''contains''" int_array_filter "[]" example_externals False "[]"]
    single_value_is_cleaned [of "Some ''gt''" int_filter "[]" example_externals False "[]"]
    a c n
  show ?thesis
    by (simp add: text_filter_facts int_array_filter_empty int_filter_empty make_q_def build_q_def
        suffix_def)
qed

text \<open>
  C6, as stated, fails: the empty value of a text filter is cleaned, and the call returns
  the predicate over the empty string.
\<close>

theorem empty_value_not_rejected:
  "get_q example_externals text_filter None [] False [] =
     (Inr (Q ''name'' (VStr [])), text_filter)"
proof -
  have a: "None \<in> set (allowed_qualifiers (fo_cls text_filter))"
    by (simp add: text_filter_def new_filter_def)
  show ?thesis
    using get_q_single [OF a _ _ text_filter_facts(3) [of example_externals None "[]"],
            where invert = False and partial = "[]"]
    by (simp add: in_or_range_def make_q_def build_q_def suffix_def text_filter_facts)
qed

text \<open>
  C8: the JSON filter returns the raw string for \<^verbatim>\<open>has_key\<close>; for
  \<^verbatim>\<open>has_keys\<close> and \<^verbatim>\<open>has_any_keys\<close> the list of the strings between the
  commas, and the empty list for the empty string; for every other qualifier what
  \<^verbatim>\<open>jsonloads\<close> returns for the bytes of the raw string, its error included.
\<close>

theorem json_clean_value:
  assumes "fo_cls self = JSONFieldFilter"
  shows
    "clean_value X self (Some ''has_key'') v = (Inr (VStr v), self) \<and>
     (qualifier = Some ''has_keys'' \<or> qualifier = Some ''has_any_keys'' \<longrightarrow>
        clean_value X self qualifier v =
          (Inr (VList (if v = [] then [] else map VStr (split_comma v))), self)) \<and>
     (qualifier \<noteq> Some ''has_key'' \<and> qualifier \<noteq> Some ''has_keys'' \<and>
      qualifier \<noteq> Some ''has_any_keys'' \<longrightarrow>
        clean_value X self qualifier v = (jsonloads X (bytes_utf8 v), self))"
proof -
  obtain cls fld ff where s: "self = FilterObj cls fld ff" by (cases self)
  obtain fc mn nm bf where f: "fld = ModelField fc mn nm bf" by (cases fld)
  have c: "cls = JSONFieldFilter" using assms s by simp
  show ?thesis
    unfolding s f c
    by (simp add: clean_value.simps Let_def split: sum.split)
qed

theorem json_clean_value_witness:
  "clean_value example_externals json_filter (Some ''has_key'') ''a,b'' = (Inr (VStr ''a,b''), json_filter) \<and>
   clean_value example_externals json_filter (Some ''has_keys'') ''a,b,c'' =
     (Inr (VList [VStr ''a'', VStr ''b'', VStr ''c'']), json_filter) \<and>
   clean_value example_externals json_filter (Some ''has_any_keys'') [] = (Inr (VList []), json_filter) \<and>
   clean_value example_externals json_filter (Some ''contains'') ''null'' = (Inr VNone, json_filter) \<and>
   clean_value example_externals json_filter None ''{'' =
     (Inl (BinderRequestError ''JSON parse error''), json_filter)"
proof -
  have c: "fo_cls json_filter = JSONFieldFilter" by (simp add: json_filter_def new_filter_def)
  have j1: "jsonloads example_externals (bytes_utf8 ''null'') = Inr VNone"
    by (simp add: example_externals_def)
  have j2: "jsonloads example_externals (bytes_utf8 ''{'') = Inl (BinderRequestError ''JSON parse error'')"
    by (simp add: example_externals_def bytes_utf8_def utf8_char_def)
  from json_clean_value [OF c, of example_externals "''a,b''" "Some ''has_keys''"]
    json_clean_value [OF c, of example_externals "''a,b,c''" "Some ''has_keys''"]
    json_clean_value [OF c, of example_externals "[]" "Some ''has_any_keys''"]
    json_clean_value [OF c, of example_externals "''null''" "Some ''contains''"]
    json_clean_value [OF c, of example_externals "''{''" None]
    j1 j2
  show ?thesis by simp
qed

lemma scan_subclasses_listed:
  "wanted \<in> set (filter_fields Filter) \<Longrightarrow> scan_subclasses subclasses wanted None = Some Filter"
  by (cases Filter) (auto simp: subclasses_def)

lemma first_error_or_all_rights: "first_error_or_all (map Inr cs) = Inr cs"
  by (induction cs) simp_all

lemma map_raise_invariant:
  assumes "I s" and "\<And>s x. I s \<Longrightarrow> I (snd (f s x)) \<and> fst (f s x) = g x"
  shows "fst (map_raise f s xs) = first_error_or_all (map g xs)"
  using assms(1)
proof (induction xs arbitrary: s)
  case Nil
  show ?case by simp
next
  case (Cons x xs)
  have st: "I (snd (f s x))" and r: "fst (f s x) = g x"
    using assms(2) [OF Cons.prems] by simp_all
  have ih: "fst (map_raise f (snd (f s x)) xs) = first_error_or_all (map g xs)"
    by (rule Cons.IH [OF st])
  show ?case
  proof (cases "f s x")
    case (Pair a s')
    with r ih show ?thesis
      by (cases a; cases "map_raise f s' xs") (auto split: sum.splits)
  qed
qed

lemma get_field_filter_resolves:
  assumes "fo_field_filter self = None \<or>
           fo_field_filter self = scan_subclasses subclasses wanted None"
  shows "get_field_filter self wanted False =
           (scan_subclasses subclasses wanted None,
            FilterObj (fo_cls self) (fo_field self) (scan_subclasses subclasses wanted None))"
proof (cases "fo_field_filter self")
  case None
  then show ?thesis by (simp add: get_field_filter_def Let_def)
next
  case (Some c)
  with assms have "scan_subclasses subclasses wanted None = Some c" by simp
  with Some show ?thesis by (cases self) (simp add: get_field_filter_def)
qed

lemma array_filter_resolved:
  assumes "ff = None \<or> ff = scan_subclasses subclasses (field_cls base) None"
  shows "clean_value X (FilterObj ArrayFieldFilter (ModelField fc mn nm (Some base)) ff) qualifier v =
           clean_value X (FilterObj ArrayFieldFilter (ModelField fc mn nm (Some base)) None) qualifier v
         \<or> (fst (clean_value X (FilterObj ArrayFieldFilter (ModelField fc mn nm (Some base)) ff) qualifier v) =
             fst (clean_value X (FilterObj ArrayFieldFilter (ModelField fc mn nm (Some base)) None) qualifier v)
            \<and> snd (clean_value X (FilterObj ArrayFieldFilter (ModelField fc mn nm (Some base)) ff) qualifier v) =
             snd (clean_value X (FilterObj ArrayFieldFilter (ModelField fc mn nm (Some base)) None) qualifier v))"
proof -
  let ?S = "\<lambda>c. FilterObj ArrayFieldFilter (ModelField fc mn nm (Some base)) c"
  have g1: "get_field_filter (?S ff) (field_cls base) False =
              (scan_subclasses subclasses (field_cls base) None,
               ?S (scan_subclasses subclasses (field_cls base) None))"
    using get_field_filter_resolves [of "?S ff" "field_cls base"] assms by simp
  have g2: "get_field_filter (?S None) (field_cls base) False =
              (scan_subclasses subclasses (field_cls base) None,
               ?S (scan_subclasses subclasses (field_cls base) None))"
    using get_field_filter_resolves [of "?S None" "field_cls base"] by simp
  have "clean_value X (?S ff) qualifier v = clean_value X (?S None) qualifier v"
    by (simp add: clean_value.simps g1 g2)
  then show ?thesis by simp
qed

lemma array_filter_state:
  "fo_field_filter
     (snd (clean_value X (FilterObj ArrayFieldFilter (ModelField fc mn nm (Some base)) None) qualifier v)) =
   scan_subclasses subclasses (field_cls base) None"
proof -
  let ?S = "\<lambda>c. FilterObj ArrayFieldFilter (ModelField fc mn nm (Some base)) c"
  have g2: "get_field_filter (?S None) (field_cls base) False =
              (scan_subclasses subclasses (field_cls base) None,
               ?S (scan_subclasses subclasses (field_cls base) None))"
    using get_field_filter_resolves [of "?S None" "field_cls base"] by simp
  show ?thesis
    by (simp add: clean_value.simps g2 split: option.split prod.split sum.split)
qed

lemma clean_value_cache:
  assumes "ff = None \<or> ff = resolved_filter cls fld"
  shows "fst (clean_value X (FilterObj cls fld ff) qualifier w) =
           fst (clean_value X (FilterObj cls fld None) qualifier w) \<and>
         (fo_field_filter (snd (clean_value X (FilterObj cls fld ff) qualifier w)) = None \<or>
          fo_field_filter (snd (clean_value X (FilterObj cls fld ff) qualifier w)) =
            resolved_filter cls fld)"
proof -
  obtain fc mn nm bf where f: "fld = ModelField fc mn nm bf" by (cases fld)
  show ?thesis
  proof (cases "cls = ArrayFieldFilter")
    case False
    then have k: "\<And>c. snd (clean_value X (FilterObj cls fld c) qualifier w) = FilterObj cls fld c"
      using clean_value_keeps_self by simp
    from False have n: "ff = None" using assms by (simp add: resolved_filter_def)
    show ?thesis using k [of ff] n by simp
  next
    case True
    show ?thesis
    proof (cases bf)
      case None
      have "resolved_filter cls fld = None" by (simp add: resolved_filter_def f None)
      with assms have n: "ff = None" by simp
      show ?thesis unfolding n f True None by (simp add: clean_value.simps)
    next
      case (Some base)
      have r: "resolved_filter cls fld = scan_subclasses subclasses (field_cls base) None"
        by (simp add: resolved_filter_def True f Some)
      have a: "ff = None \<or> ff = scan_subclasses subclasses (field_cls base) None"
        using assms r by simp
      have eq: "clean_value X (FilterObj cls fld ff) qualifier w =
                clean_value X (FilterObj cls fld None) qualifier w"
        using array_filter_resolved [OF a, of X fc mn nm qualifier w]
        unfolding f True Some by (auto simp: prod_eq_iff)
      show ?thesis
        unfolding eq r unfolding f True Some
        by (simp add: array_filter_state)
    qed
  qed
qed

text \<open>
  C7, as amended: an array filter whose base field is of a class that \<open>Filter\<close> lists, and whose
  attribute \<^verbatim>\<open>_field_filter\<close> is unset or set by an earlier call, cleans the empty
  string to the empty list. A string that is not empty is split at its commas and every
  element is cleaned by a filter of class \<open>Filter\<close> on the base field, on its own: the
  result is the first error in the order of the elements, or the list of the cleaned
  elements in that order.
\<close>

theorem array_clean_value:
  assumes "fo_cls self = ArrayFieldFilter"
    and "base_field (fo_field self) = Some base"
    and "field_cls base \<in> set (filter_fields Filter)"
    and "fo_field_filter self = None \<or> fo_field_filter self = Some Filter"
  shows
    "fst (clean_value X self qualifier []) = Inr (VList []) \<and>
     (v \<noteq> [] \<longrightarrow>
        fst (clean_value X self qualifier v) =
          (case first_error_or_all
                  (map (\<lambda>w. fst (clean_value X (new_filter Filter base) qualifier w))
                     (split_comma v)) of
             Inl e \<Rightarrow> Inl e
           | Inr cleaned \<Rightarrow> Inr (VList cleaned))) \<and>
     (v \<noteq> [] \<and>
      map (\<lambda>w. fst (clean_value X (new_filter Filter base) qualifier w)) (split_comma v) =
        map Inr cleaned \<longrightarrow>
        fst (clean_value X self qualifier v) = Inr (VList cleaned))"
proof -
  obtain cls fld ff where s: "self = FilterObj cls fld ff" by (cases self)
  obtain fc mn nm bf where f: "fld = ModelField fc mn nm bf" by (cases fld)
  have c: "cls = ArrayFieldFilter" and b: "bf = Some base" using assms(1,2) s f by simp_all
  have sc: "scan_subclasses subclasses (field_cls base) None = Some Filter"
    using assms(3) by (rule scan_subclasses_listed)
  have gf: "get_field_filter (FilterObj ArrayFieldFilter (ModelField fc mn nm (Some base)) ff)
              (field_cls base) False =
            (Some Filter, FilterObj ArrayFieldFilter (ModelField fc mn nm (Some base)) (Some Filter))"
    using get_field_filter_resolves
            [of "FilterObj ArrayFieldFilter (ModelField fc mn nm (Some base)) ff" "field_cls base"]
      assms(4) sc s
    by simp
  let ?g = "\<lambda>w. fst (clean_value X (new_filter Filter base) qualifier w)"
  let ?f = "\<lambda>ff' w. case clean_value X (FilterObj Filter base ff') qualifier w of
                        (r, filter') \<Rightarrow> (r, fo_field_filter filter')"
  have inv: "(snd (?f s x) = None \<or> snd (?f s x) = resolved_filter Filter base) \<and>
               fst (?f s x) = ?g x"
    if "s = None \<or> s = resolved_filter Filter base" for s x
    using clean_value_cache [OF that, of X qualifier x]
    by (simp add: new_filter_def case_prod_beta)
  have mr: "\<And>ws. fst (map_raise ?f None ws) = first_error_or_all (map ?g ws)"
    by (rule map_raise_invariant [where I = "\<lambda>s. s = None \<or> s = resolved_filter Filter base"])
      (simp, rule inv)
  have e: "fst (clean_value X self qualifier []) = Inr (VList [])"
    unfolding s f c b
    by (simp add: clean_value.simps gf)
  have n: "fst (clean_value X self qualifier v) =
          (case first_error_or_all (map ?g (split_comma v)) of
             Inl e \<Rightarrow> Inl e
           | Inr cleaned \<Rightarrow> Inr (VList cleaned))" if ne: "v \<noteq> []"
  proof -
    obtain r st where m: "map_raise ?f None (split_comma v) = (r, st)"
      by (cases "map_raise ?f None (split_comma v)")
    have r: "r = first_error_or_all (map ?g (split_comma v))"
      using mr [of "split_comma v"] m by simp
    have "fst (clean_value X self qualifier v) =
            (case r of Inl e \<Rightarrow> Inl e | Inr cleaned \<Rightarrow> Inr (VList cleaned))"
      unfolding s f c b using ne
      by (cases r) (simp_all add: clean_value.simps gf m)
    then show ?thesis unfolding r .
  qed
  show ?thesis using e n by (auto simp: first_error_or_all_rights)
qed

lemmas digit_eval = digits_value_def digit_val_def is_digit_def

lemma int_element_clean:
  "py_int w = Some i \<Longrightarrow>
     fst (clean_value X (new_filter IntegerFieldFilter (ModelField IntegerField mn nm None)) qualifier w) =
       Inr (VInt i)"
  by (simp add: new_filter_def clean_value.simps)

lemma py_int_small: "py_int ''3'' = Some 3" "py_int ''1'' = Some 1" "py_int ''2'' = Some 2"
  by (simp_all add: py_int_def int_space_def digit_eval)

theorem array_clean_value_witness:
  "fst (clean_value example_externals int_array_filter (Some ''contains'') []) = Inr (VList []) \<and>
   fst (clean_value example_externals int_array_filter (Some ''contains'') ''3,1,2'') =
     Inr (VList [VInt 3, VInt 1, VInt 2])"
proof -
  let ?base = "ModelField IntegerField ''Animal'' ''tags'' None"
  have a: "fo_cls int_array_filter = ArrayFieldFilter"
    "base_field (fo_field int_array_filter) = Some ?base"
    "field_cls ?base \<in> set (filter_fields IntegerFieldFilter)"
    "fo_field_filter int_array_filter = None \<or> fo_field_filter int_array_filter = Some IntegerFieldFilter"
    by (simp_all add: int_array_filter_def new_filter_def)
  have s: "split_comma ''3,1,2'' = [''3'', ''1'', ''2'']" by simp
  have m: "map (\<lambda>w. fst (clean_value example_externals (new_filter IntegerFieldFilter ?base)
                             (Some ''contains'') w)) (split_comma ''3,1,2'') =
           map Inr [VInt 3, VInt 1, VInt 2]"
    unfolding s by (simp add: int_element_clean py_int_small)
  from array_clean_value [OF a, of example_externals "Some ''contains''" "''3,1,2''"
         "[VInt 3, VInt 1, VInt 2]"] m
  show ?thesis by simp
qed

text \<open>
  C7, as stated, fails: for an array of a field class that no filter class lists, the
  empty string raises \<^verbatim>\<open>TypeError\<close>, the call of \<^verbatim>\<open>None\<close> coming
  before the test for the empty string.
\<close>

theorem array_of_unlisted_class_counterexample:
  "fst (clean_value example_externals decimal_array_filter (Some ''contains'') []) = Inl TypeError"
  by (simp add: decimal_array_filter_def new_filter_def clean_value.simps get_field_filter_def
      subclasses_def Let_def)

lemma digit_not_space: "is_digit c \<Longrightarrow> \<not> int_space c"
  by (auto simp: is_digit_def int_space_def)

lemma digit_not_sign: "is_digit c \<Longrightarrow> c \<noteq> CHR ''+'' \<and> c \<noteq> CHR ''-'' \<and> c \<noteq> CHR ''_''"
  by (auto simp: is_digit_def)

lemma grouped_digits_all:
  "list_all is_digit ds \<Longrightarrow> grouped_digits acc ds = Some (acc @ ds)"
  by (induction acc ds rule: grouped_digits.induct) simp_all

lemma dropWhile_digits:
  assumes "ds \<noteq> []" and "list_all is_digit ds"
  shows "dropWhile int_space ds = ds"
  using assms by (cases ds) (simp_all add: digit_not_space)

lemma py_int_digits:
  assumes "ds \<noteq> []" and "list_all is_digit ds"
  shows "py_int ds = Some (int (digits_value ds))"
proof -
  have r: "rev ds \<noteq> []" "list_all is_digit (rev ds)" using assms by simp_all
  have t: "rev (dropWhile int_space (rev (dropWhile int_space ds))) = ds"
    by (simp add: dropWhile_digits [OF assms] dropWhile_digits [OF r])
  have h: "is_digit (hd ds)" using assms by (cases ds) simp_all
  show ?thesis
    using assms digit_not_sign [OF h]
    by (simp add: py_int_def t grouped_digits_all)
qed


lemma digits_value_snoc: "digits_value (ds @ [c]) = 10 * digits_value ds + digit_val c"
  by (simp add: digits_value_def)

lemma digit_val_le: "is_digit c \<Longrightarrow> digit_val c \<le> 9"
  by (auto simp: is_digit_def digit_val_def)

lemma digits_value_bound: "list_all is_digit ds \<Longrightarrow> digits_value ds < 10 ^ length ds"
proof (induction ds rule: rev_induct)
  case Nil
  show ?case by (simp add: digits_value_def)
next
  case (snoc c ds)
  then have "digits_value ds < 10 ^ length ds" and "digit_val c \<le> 9"
    by (simp_all add: digit_val_le)
  then show ?case by (simp add: digits_value_snoc)
qed

lemma is_digit_zero: "is_digit CHR ''0''"
  by (simp add: is_digit_def)

lemma ljust_digits:
  "list_all is_digit f \<Longrightarrow> list_all is_digit (ljust n CHR ''0'' f)"
  by (auto simp: ljust_def list_all_iff is_digit_zero)

lemma ljust_length: "length f \<le> n \<Longrightarrow> length (ljust n c f) = n"
  by (simp add: ljust_def)

lemma ljust_not_Nil: "0 < n \<Longrightarrow> ljust n c f \<noteq> []"
  by (cases f) (simp_all add: ljust_def)

lemma digits_n_Some:
  assumes "digits_n n s = Some (d, r)"
  shows "d = take n s \<and> r = drop n s \<and> length d = n \<and> list_all is_digit d"
  using assms by (auto simp: digits_n_def split: if_splits)

lemma clock_prefix_Some:
  assumes "clock_prefix v = Some ((h, m, s), r)"
  shows "length h = 2 \<and> list_all is_digit h \<and> length m = 2 \<and> list_all is_digit m \<and>
         length s = 2 \<and> list_all is_digit s"
proof -
  from assms obtain r1 r2 r3 r4 where
    "digits_n 2 v = Some (h, r1)" "digits_n 2 r2 = Some (m, r3)" "digits_n 2 r4 = Some (s, r)"
    by (auto simp: clock_prefix_def bind_eq_Some_conv)
  then show ?thesis using digits_n_Some by blast
qed

lemma takeWhile_all: "list_all P (takeWhile P xs)"
  by (induction xs) simp_all

lemma fraction_Some:
  assumes "fst (fraction r) = Some f"
  shows "f \<noteq> [] \<and> list_all is_digit f"
  using assms by (auto simp: fraction_def takeWhile_all split: list.splits if_splits)

lemma digits_n_not_None:
  assumes "digits_n n r \<noteq> None"
  shows "length (take n r) = n \<and> list_all is_digit (take n r)"
proof -
  have "n \<le> length r \<and> list_all is_digit (take n r)"
    using assms unfolding digits_n_def by (cases "n \<le> length r \<and> list_all is_digit (take n r)") simp_all
  then show ?thesis by simp
qed

lemma time_zone_signed:
  assumes "c = CHR ''+'' \<or> c = CHR ''-''"
  shows "time_zone (c # r) =
           (if digits_n 4 r \<noteq> None \<and> at_end (drop 4 r) then Some (c # take 4 r)
            else if digits_n 2 r \<noteq> None \<and> at_end (drop 2 r) then Some (c # take 2 r)
            else None)"
proof -
  have "c \<noteq> CHR ''Z''" using assms by auto
  then show ?thesis unfolding time_zone_def using assms by simp
qed

lemma time_zone_Some:
  assumes "time_zone s = Some z"
  shows "z = ''Z'' \<or>
         (\<exists>c ds. z = c # ds \<and> (c = CHR ''+'' \<or> c = CHR ''-'') \<and> list_all is_digit ds \<and>
                  (length ds = 2 \<or> length ds = 4))"
proof (cases s)
  case Nil
  with assms show ?thesis by (simp add: time_zone_def)
next
  case (Cons c r)
  show ?thesis
  proof (cases "c = CHR ''Z''")
    case True
    have "time_zone (c # r) = (if at_end r then Some [c] else None)"
      unfolding time_zone_def using True by simp
    with assms Cons True show ?thesis by (cases "at_end r") simp_all
  next
    case False
    show ?thesis
    proof (cases "c = CHR ''+'' \<or> c = CHR ''-''")
      case sg: True
      note eq = time_zone_signed [OF sg, of r]
      show ?thesis
      proof (cases "digits_n 4 r \<noteq> None \<and> at_end (drop 4 r)")
        case True
        have "time_zone (c # r) = Some (c # take 4 r)"
          unfolding eq by (simp only: if_P [OF True])
        with assms Cons have z: "z = c # take 4 r" by simp
        from True digits_n_not_None [of 4 r] have "length (take 4 r) = 4 \<and> list_all is_digit (take 4 r)"
          by blast
        with z sg show ?thesis by blast
      next
        case n4: False
        show ?thesis
        proof (cases "digits_n 2 r \<noteq> None \<and> at_end (drop 2 r)")
          case True
          have "time_zone (c # r) = Some (c # take 2 r)"
            unfolding eq by (simp only: if_not_P [OF n4] if_P [OF True])
          with assms Cons have z: "z = c # take 2 r" by simp
          from True digits_n_not_None [of 2 r] have "length (take 2 r) = 2 \<and> list_all is_digit (take 2 r)"
            by blast
          with z sg show ?thesis by blast
        next
          case False
          have "time_zone (c # r) = None"
            unfolding eq by (simp only: if_not_P [OF n4] if_not_P [OF False])
          with assms Cons show ?thesis by simp
        qed
      qed
    next
      case nsg: False
      have "time_zone (c # r) = None"
        unfolding time_zone_def using False nsg by simp
      with assms Cons show ?thesis by simp
    qed
  qed
qed

lemma time_re_match_Some:
  assumes "time_re_match v = Some (h, m, s, frac, z)"
  shows "length h = 2 \<and> list_all is_digit h \<and> length m = 2 \<and> list_all is_digit m \<and>
         length s = 2 \<and> list_all is_digit s \<and>
         (\<forall>f. frac = Some f \<longrightarrow> f \<noteq> [] \<and> list_all is_digit f) \<and>
         (z = ''Z'' \<or>
          (\<exists>c ds. z = c # ds \<and> (c = CHR ''+'' \<or> c = CHR ''-'') \<and> list_all is_digit ds \<and>
                   (length ds = 2 \<or> length ds = 4)))"
proof -
  from assms obtain r where cp: "clock_prefix v = Some ((h, m, s), r)"
    and tz: "time_zone (snd (fraction r)) = Some z" and fr: "frac = fst (fraction r)"
    by (auto simp: time_re_match_def bind_eq_Some_conv)
  show ?thesis
    using clock_prefix_Some [OF cp] time_zone_Some [OF tz] fraction_Some [of r] fr
    by auto
qed

lemma tzinfo_of_group_Z: "tzinfo_of_group X ''Z'' = Inr UTC"
  by (simp add: tzinfo_of_group_def)

lemma digits_value_00: "digits_value ''00'' = 0" "digits_value [] = 0"
  by (simp_all add: digits_value_def digit_val_def)

lemma tzinfo_of_group_offset:
  assumes "c = CHR ''+'' \<or> c = CHR ''-''" and "list_all is_digit ds"
    and "length ds = 2 \<or> length ds = 4"
  shows "tzinfo_of_group X (c # ds) =
           get_fixed_timezone X
             ((if c = CHR ''-'' then - 1 else 1) *
              (int (digits_value (take 2 ds)) * 60 + int (digits_value (drop 2 ds))))"
proof -
  have cz: "c \<noteq> CHR ''Z''" using assms(1) by auto
  have hh: "py_int (take 2 ds) = Some (int (digits_value (take 2 ds)))"
    using assms(2,3) by (intro py_int_digits) (auto simp: list_all_iff dest: in_set_takeD)
  have sg: "([c] = ''-'') = (c = CHR ''-'')" by simp
  from assms(3) show ?thesis
  proof
    assume l: "length ds = 2"
    have tz: "ljust 5 CHR ''0'' (c # ds) = c # ds @ ''00''"
      using l by (simp add: ljust_def numeral_eq_Suc)
    have t: "take 2 (drop 1 (c # ds @ ''00'')) = take 2 ds"
      "take 2 (drop 3 (c # ds @ ''00'')) = ''00''" "take 1 (c # ds @ ''00'') = [c]"
      "drop 2 ds = []"
      using l by simp_all
    have mm: "py_int ''00'' = Some 0"
      using py_int_digits [of "''00''"] by (simp add: is_digit_zero digits_value_00)
    show ?thesis
      unfolding tzinfo_of_group_def tz Let_def t hh mm sg
      using cz by (simp add: digits_value_00)
  next
    assume l: "length ds = 4"
    have tz: "ljust 5 CHR ''0'' (c # ds) = c # ds"
      using l by (simp add: ljust_def)
    have mm: "py_int (drop 2 ds) = Some (int (digits_value (drop 2 ds)))"
      using assms(2) l by (intro py_int_digits) (auto simp: list_all_iff dest: in_set_dropD)
    have t: "take 2 (drop 1 (c # ds)) = take 2 ds"
      "take 2 (drop 3 (c # ds)) = drop 2 ds" "take 1 (c # ds) = [c]"
      using l by simp_all
    show ?thesis
      unfolding tzinfo_of_group_def tz Let_def t hh mm sg
      using cz by simp
  qed
qed

lemma time_filter_clean:
  assumes "fo_cls self = TimeFieldFilter"
  shows "clean_value X self qualifier v =
           (case time_re_match v of
              None \<Rightarrow> (Inl (invalid_value ''HH:MM:SS(.mmm) '' self v), self)
            | Some g \<Rightarrow>
                (case time_of_groups X g of
                   Inl e \<Rightarrow> (Inl e, self)
                 | Inr t \<Rightarrow> (Inr (VTime t), self)))"
proof -
  obtain cls fld ff where s: "self = FilterObj cls fld ff" by (cases self)
  obtain fc mn nm bf where f: "fld = ModelField fc mn nm bf" by (cases fld)
  have c: "cls = TimeFieldFilter" using assms s by simp
  show ?thesis unfolding s f c by (simp add: clean_value.simps Let_def)
qed

lemma time_of_groups_digits:
  assumes "h \<noteq> []" "list_all is_digit h" "m \<noteq> []" "list_all is_digit m"
    "s \<noteq> []" "list_all is_digit s"
    "list_all is_digit (case frac of None \<Rightarrow> [] | Some f \<Rightarrow> f)"
  shows "time_of_groups X (h, m, s, frac, z) =
           (case tzinfo_of_group X z of
              Inl e \<Rightarrow> Inl e
            | Inr tz \<Rightarrow>
                py_time (int (digits_value h)) (int (digits_value m)) (int (digits_value s))
                  (int (digits_value (ljust 6 CHR ''0'' (case frac of None \<Rightarrow> [] | Some f \<Rightarrow> f))))
                  tz)"
proof -
  let ?us = "ljust 6 CHR ''0'' (case frac of None \<Rightarrow> [] | Some f \<Rightarrow> f)"
  have us: "py_int ?us = Some (int (digits_value ?us))"
    by (rule py_int_digits) (simp_all add: ljust_not_Nil ljust_digits assms(7))
  show ?thesis
    unfolding time_of_groups_def
    by (simp add: py_int_digits assms us)
qed

lemma takeWhile_digits_then:
  assumes "list_all is_digit ds" and "\<not> is_digit c"
  shows "takeWhile is_digit (ds @ c # r) = ds" and "dropWhile is_digit (ds @ c # r) = c # r"
  using assms by (induction ds) simp_all

lemma many_fraction_digits:
  assumes "ds \<noteq> []" and "list_all is_digit ds"
  shows "time_re_match (''12:00:00.'' @ ds @ ''Z'') = Some (''12'', ''00'', ''00'', Some ds, ''Z'')"
proof -
  have cp: "clock_prefix (''12:00:00.'' @ ds @ ''Z'') = Some ((''12'', ''00'', ''00''), CHR ''.'' # ds @ ''Z'')"
    by (simp add: clock_prefix_def digits_n_def is_digit_def)
  have nz: "\<not> is_digit CHR ''Z''" by (simp add: is_digit_def)
  have fr: "fraction (CHR ''.'' # ds @ ''Z'') = (Some ds, ''Z'')"
    using assms takeWhile_digits_then [OF assms(2) nz, of "[]"]
    by (simp add: fraction_def)
  have tz: "time_zone ''Z'' = Some ''Z''" by (simp add: time_zone_def at_end_def)
  show ?thesis
    unfolding time_re_match_def cp by (simp add: fr tz)
qed

lemma seven_digits: "''1234567'' \<noteq> [] \<and> list_all is_digit ''1234567''"
  by (simp add: is_digit_def)

lemma time_of_seven_digits:
  "time_of_groups X (''12'', ''00'', ''00'', Some ''1234567'', ''Z'') = Inl ValueError"
proof -
  have d: "list_all is_digit ''12''" "list_all is_digit ''00''" "list_all is_digit ''1234567''"
    by (simp_all add: is_digit_def)
  have v: "digits_value (ljust 6 CHR ''0'' ''1234567'') = 1234567"
    by (simp add: ljust_def digits_value_def digit_val_def)
  show ?thesis
    using time_of_groups_digits [of "''12''" "''00''" "''00''" "Some ''1234567''" X "''Z''"] d
    by (simp add: tzinfo_of_group_Z v py_time_def)
qed

text \<open>
  C10, as amended: the time filter fails with the error of an invalid value when the raw
  value does not match \<^verbatim>\<open>time_re\<close>. When it matches with at most 6 digits of
  fraction, an hour below 24, minute and second below 60 and a zone that resolves, it
  returns the time whose microseconds are the fraction padded with zeros on the right to 6
  digits. The zone \<^verbatim>\<open>Z\<close> is UTC; a signed zone of 2 or 4 digits is the fixed
  zone of the offset, the minutes being zero when there are 2 digits, as after padding
  with \<^verbatim>\<open>00\<close>. The expression accepts any number of digits of fraction, and for
  \<^verbatim>\<open>12:00:00.1234567Z\<close> the \<^verbatim>\<open>ValueError\<close> of the constructor is what
  the call raises.
\<close>

theorem time_clean_value:
  assumes "fo_cls self = TimeFieldFilter"
  shows
    "(time_re_match v = None \<longrightarrow>
        clean_value X self qualifier v =
          (Inl (ValidationError
                 (''Invalid HH:MM:SS(.mmm) value {'' @ v @ ''} for '' @ field_description self
                    @ ''.'')), self)) \<and>
     (time_re_match v = Some (h, m, s, frac, z) \<and>
      length (case frac of None \<Rightarrow> [] | Some f \<Rightarrow> f) \<le> 6 \<and>
      digits_value h < 24 \<and> digits_value m < 60 \<and> digits_value s < 60 \<and>
      tzinfo_of_group X z = Inr tz \<longrightarrow>
        clean_value X self qualifier v =
          (Inr (VTime (Time (int (digits_value h)) (int (digits_value m)) (int (digits_value s))
                         (int (digits_value
                                (ljust 6 CHR ''0'' (case frac of None \<Rightarrow> [] | Some f \<Rightarrow> f))))
                         tz)), self)) \<and>
     tzinfo_of_group X ''Z'' = Inr UTC \<and>
     ((c = CHR ''+'' \<or> c = CHR ''-'') \<and> list_all is_digit zd \<and> (length zd = 2 \<or> length zd = 4) \<longrightarrow>
        tzinfo_of_group X (c # zd) =
          get_fixed_timezone X
            ((if c = CHR ''-'' then - 1 else 1) *
             (int (digits_value (take 2 zd)) * 60 + int (digits_value (drop 2 zd)))) \<and>
        (length zd = 2 \<longrightarrow> tzinfo_of_group X (c # zd) = tzinfo_of_group X (c # zd @ ''00''))) \<and>
     (fd \<noteq> [] \<and> list_all is_digit fd \<longrightarrow>
        time_re_match (''12:00:00.'' @ fd @ ''Z'') = Some (''12'', ''00'', ''00'', Some fd, ''Z'')) \<and>
     clean_value X self qualifier ''12:00:00.1234567Z'' = (Inl ValueError, self)"
proof (intro conjI impI)
  assume "time_re_match v = None"
  then show "clean_value X self qualifier v =
          (Inl (ValidationError
                 (''Invalid HH:MM:SS(.mmm) value {'' @ v @ ''} for '' @ field_description self
                    @ ''.'')), self)"
    by (simp add: time_filter_clean [OF assms] invalid_value_def)
next
  assume a: "time_re_match v = Some (h, m, s, frac, z) \<and>
      length (case frac of None \<Rightarrow> [] | Some f \<Rightarrow> f) \<le> 6 \<and>
      digits_value h < 24 \<and> digits_value m < 60 \<and> digits_value s < 60 \<and>
      tzinfo_of_group X z = Inr tz"
  let ?f = "case frac of None \<Rightarrow> [] | Some f \<Rightarrow> f"
  from a have st: "length h = 2 \<and> list_all is_digit h \<and> length m = 2 \<and> list_all is_digit m \<and>
         length s = 2 \<and> list_all is_digit s \<and>
         (\<forall>f. frac = Some f \<longrightarrow> f \<noteq> [] \<and> list_all is_digit f)"
    using time_re_match_Some [of v h m s frac z] by blast
  then have ne: "h \<noteq> []" "m \<noteq> []" "s \<noteq> []" by auto
  have fd: "list_all is_digit ?f" using st by (cases frac) simp_all
  have "digits_value (ljust 6 CHR ''0'' ?f) < 10 ^ length (ljust 6 CHR ''0'' ?f)"
    by (rule digits_value_bound) (rule ljust_digits [OF fd])
  moreover have "length (ljust 6 CHR ''0'' ?f) = 6" using a by (intro ljust_length) simp
  ultimately have us: "digits_value (ljust 6 CHR ''0'' ?f) < 1000000" by simp
  have tg: "time_of_groups X (h, m, s, frac, z) =
          Inr (Time (int (digits_value h)) (int (digits_value m)) (int (digits_value s))
                 (int (digits_value (ljust 6 CHR ''0'' ?f))) tz)"
    using time_of_groups_digits [OF ne(1) _ ne(2) _ ne(3) _ fd, of X z] st a us
    by (simp add: py_time_def)
  show "clean_value X self qualifier v =
          (Inr (VTime (Time (int (digits_value h)) (int (digits_value m)) (int (digits_value s))
                         (int (digits_value (ljust 6 CHR ''0'' ?f))) tz)), self)"
    using a by (simp add: time_filter_clean [OF assms] tg)
next
  show "tzinfo_of_group X ''Z'' = Inr UTC" by (rule tzinfo_of_group_Z)
next
  assume a: "(c = CHR ''+'' \<or> c = CHR ''-'') \<and> list_all is_digit zd \<and> (length zd = 2 \<or> length zd = 4)"
  then show "tzinfo_of_group X (c # zd) =
          get_fixed_timezone X
            ((if c = CHR ''-'' then - 1 else 1) *
             (int (digits_value (take 2 zd)) * 60 + int (digits_value (drop 2 zd))))"
    using tzinfo_of_group_offset [of c zd X] by blast
next
  assume a: "(c = CHR ''+'' \<or> c = CHR ''-'') \<and> list_all is_digit zd \<and> (length zd = 2 \<or> length zd = 4)"
    and l: "length zd = 2"
  have d: "list_all is_digit (zd @ ''00'')" using a by (simp add: is_digit_zero)
  have l4: "length (zd @ ''00'') = 2 \<or> length (zd @ ''00'') = 4" using l by simp
  have "tzinfo_of_group X (c # zd) =
          get_fixed_timezone X
            ((if c = CHR ''-'' then - 1 else 1) *
             (int (digits_value (take 2 zd)) * 60 + int (digits_value (drop 2 zd))))"
    using a tzinfo_of_group_offset [of c zd X] by blast
  moreover have "tzinfo_of_group X (c # zd @ ''00'') =
          get_fixed_timezone X
            ((if c = CHR ''-'' then - 1 else 1) *
             (int (digits_value (take 2 (zd @ ''00''))) * 60 + int (digits_value (drop 2 (zd @ ''00'')))))"
    using a tzinfo_of_group_offset [OF _ d l4, of c X] by blast
  ultimately show "tzinfo_of_group X (c # zd) = tzinfo_of_group X (c # zd @ ''00'')"
    using l by (simp add: digits_value_00)
next
  assume "fd \<noteq> [] \<and> list_all is_digit fd"
  then show "time_re_match (''12:00:00.'' @ fd @ ''Z'') = Some (''12'', ''00'', ''00'', Some fd, ''Z'')"
    using many_fraction_digits by blast
next
  have m: "time_re_match ''12:00:00.1234567Z'' = Some (''12'', ''00'', ''00'', Some ''1234567'', ''Z'')"
    using many_fraction_digits [of "''1234567''"] seven_digits by simp
  show "clean_value X self qualifier ''12:00:00.1234567Z'' = (Inl ValueError, self)"
    by (simp add: time_filter_clean [OF assms] m time_of_seven_digits)
qed

lemma time_filter_facts:
  "fo_cls time_filter = TimeFieldFilter"
  "field_description time_filter = ''TimeField {Animal}.{feeding}''"
  by (simp_all add: time_filter_def new_filter_def field_description_def)

lemma example_time_matches:
  "time_re_match ''12:30:01.5-0130'' = Some (''12'', ''30'', ''01'', Some ''5'', ''-0130'')"
  "time_re_match ''12:30:01'' = None"
  "time_re_match ''12:00:00.0000001Z'' = Some (''12'', ''00'', ''00'', Some ''0000001'', ''Z'')"
  "time_re_match ''25:00:00Z'' = Some (''25'', ''00'', ''00'', None, ''Z'')"
  by (simp_all add: regex_defs)

lemma example_offset: "tzinfo_of_group example_externals ''-0130'' = Inr (FixedOffset (- 90))"
proof -
  have "tzinfo_of_group example_externals (CHR ''-'' # ''0130'') =
          get_fixed_timezone example_externals
            ((if CHR ''-'' = CHR ''-'' then - 1 else 1) *
             (int (digits_value (take 2 ''0130'')) * 60 + int (digits_value (drop 2 ''0130''))))"
    by (rule tzinfo_of_group_offset) (simp_all add: is_digit_def)
  then show ?thesis by (simp add: digit_eval example_externals_def)
qed

theorem time_clean_value_witness:
  "clean_value example_externals time_filter None ''12:30:01.5-0130'' =
     (Inr (VTime (Time 12 30 1 500000 (FixedOffset (- 90)))), time_filter) \<and>
   clean_value example_externals time_filter None ''12:30:01'' =
     (Inl (ValidationError
            ''Invalid HH:MM:SS(.mmm) value {12:30:01} for TimeField {Animal}.{feeding}.''),
      time_filter) \<and>
   clean_value example_externals time_filter None ''12:00:00.1234567Z'' =
     (Inl ValueError, time_filter)"
proof -
  have v: "digits_value ''12'' = 12" "digits_value ''30'' = 30" "digits_value ''01'' = 1"
    by (simp_all add: digit_eval)
  have p: "ljust 6 CHR ''0'' ''5'' = ''500000''" by code_simp
  have u: "digits_value (ljust 6 CHR ''0'' ''5'') = 500000"
    unfolding p by (simp add: digit_eval)
  from time_clean_value [OF time_filter_facts(1), of "''12:30:01.5-0130''" example_externals None
         "''12''" "''30''" "''01''" "Some ''5''" "''-0130''" "FixedOffset (- 90)"
         "CHR ''-''" "''0130''" "''1234567''"]
    time_clean_value [OF time_filter_facts(1), of "''12:30:01''" example_externals None
         "''12''" "''30''" "''01''" "Some ''5''" "''-0130''" "FixedOffset (- 90)"
         "CHR ''-''" "''0130''" "''1234567''"]
    example_time_matches example_offset v u time_filter_facts(2)
  show ?thesis by simp
qed

text \<open>
  C10, as stated, fails both ways: seven digits of fraction that start with zeros give a
  time, and a raw value without any fraction whose hour is 25 raises the
  \<^verbatim>\<open>ValueError\<close> of the constructor.
\<close>

theorem time_totality_counterexample:
  "fst (clean_value example_externals time_filter None ''12:00:00.0000001Z'') =
     Inr (VTime (Time 12 0 0 1 UTC)) \<and>
   fst (clean_value example_externals time_filter None ''25:00:00Z'') = Inl ValueError"
proof -
  have d: "list_all is_digit ''12''" "list_all is_digit ''00''" "list_all is_digit ''25''"
    "list_all is_digit ''0000001''"
    by (simp_all add: is_digit_def)
  have p: "ljust 6 CHR ''0'' [] = ''000000''" by code_simp
  have v: "digits_value ''12'' = 12" "digits_value ''00'' = 0" "digits_value ''25'' = 25"
    "digits_value (ljust 6 CHR ''0'' ''0000001'') = 1" "digits_value (ljust 6 CHR ''0'' []) = 0"
    unfolding p by (simp_all add: digit_eval ljust_def)
  have t1: "time_of_groups example_externals (''12'', ''00'', ''00'', Some ''0000001'', ''Z'') =
              Inr (Time 12 0 0 1 UTC)"
    using time_of_groups_digits [of "''12''" "''00''" "''00''" "Some ''0000001''" example_externals "''Z''"] d
    by (simp add: tzinfo_of_group_Z v py_time_def)
  have t2: "time_of_groups example_externals (''25'', ''00'', ''00'', None, ''Z'') = Inl ValueError"
    using time_of_groups_digits [of "''25''" "''00''" "''00''" None example_externals "''Z''"] d
    by (simp add: tzinfo_of_group_Z v py_time_def)
  show ?thesis
    by (simp add: time_filter_clean [OF time_filter_facts(1)] example_time_matches t1 t2)
qed

section \<open>Properties of the change history\<close>

lemma dict_set_keys: "fst ` set (dict_set k v d) = insert k (fst ` set d)"
proof (induction d)
  case Nil
  show ?case by simp
next
  case (Cons e d)
  obtain k' v' where e: "e = (k', v')" by (cases e)
  show ?case
  proof (cases "k = k'")
    case True
    then show ?thesis unfolding e by simp
  next
    case False
    then show ?thesis unfolding e using Cons by auto
  qed
qed

lemma dict_set_map_of: "map_of (dict_set k v d) = (map_of d)(k \<mapsto> v)"
  by (induction d) auto

lemma dict_set_distinct: "distinct (map fst d) \<Longrightarrow> distinct (map fst (dict_set k v d))"
proof (induction d)
  case Nil
  show ?case by simp
next
  case (Cons e d)
  then show ?case
    using dict_set_keys [of k v d] by (cases e) (auto simp: image_iff)
qed

lemma concrete_fields_loop_distinct:
  "distinct (map fst acc) \<Longrightarrow> distinct (map fst (concrete_fields_loop P self skip fs acc))"
  by (induction fs arbitrary: acc) (auto simp: dict_set_distinct)

lemma concrete_fields_distinct:
  "distinct (map fst (binder_concrete_fields_as_dict P self skip))"
  unfolding binder_concrete_fields_as_dict_def
  by (rule concrete_fields_loop_distinct) simp

lemma map_of_None_keys: "(map_of h n = None) = (n \<notin> fst ` set h)"
  by (simp add: map_of_eq_None_iff)

lemma post_save_loop_unchanged:
  assumes "\<forall>(n, v) \<in> set items. \<forall>old. map_of h n = Some old \<longrightarrow> \<not> py_ne P old v"
  shows "post_save_loop P sender oid items (h, log) = (h, log)"
  using assms
proof (induction items)
  case Nil
  show ?case by simp
next
  case (Cons e items)
  obtain n v where e: "e = (n, v)" by (cases e)
  have ih: "post_save_loop P sender oid items (h, log) = (h, log)"
    using Cons by simp
  show ?case
    using Cons.prems ih unfolding e by (cases "map_of h n") simp_all
qed

lemma post_save_loop_keys:
  "\<exists>new. snd (post_save_loop P sender oid items (h, log)) = log @ new \<and>
         (\<forall>c \<in> set new. change_field c \<in> fst ` set h) \<and>
         fst ` set (fst (post_save_loop P sender oid items (h, log))) = fst ` set h"
proof (induction items arbitrary: h log)
  case Nil
  show ?case by simp
next
  case (Cons e items)
  obtain n v where e: "e = (n, v)" by (cases e)
  show ?case
  proof (cases "map_of h n")
    case None
    then show ?thesis unfolding e using Cons [of h log] by simp
  next
    case (Some old)
    then have k: "n \<in> fst ` set h" using map_of_None_keys [of h n] by simp
    show ?thesis
    proof (cases "py_ne P old v")
      case False
      then show ?thesis unfolding e using Some Cons [of h log] by simp
    next
      case True
      let ?h = "dict_set n (Known v) h" and ?log = "change sender oid n old v log"
      have kh: "fst ` set ?h = fst ` set h" using k by (auto simp: dict_set_keys)
      from Cons [of ?h ?log] obtain new where
        n1: "snd (post_save_loop P sender oid items (?h, ?log)) = ?log @ new"
        and n2: "\<forall>c \<in> set new. change_field c \<in> fst ` set ?h"
        and n3: "fst ` set (fst (post_save_loop P sender oid items (?h, ?log))) = fst ` set ?h"
        by blast
      have st: "post_save_loop P sender oid (e # items) (h, log) =
                  post_save_loop P sender oid items (?h, ?log)"
        unfolding e using Some True by simp
      have "snd (post_save_loop P sender oid (e # items) (h, log)) =
              log @ (Change sender oid n old v # new)"
        unfolding st n1 by (simp add: change_def)
      moreover have "\<forall>c \<in> set (Change sender oid n old v # new). change_field c \<in> fst ` set h"
        using n2 k unfolding kh by simp
      moreover have "fst ` set (fst (post_save_loop P sender oid (e # items) (h, log))) = fst ` set h"
        unfolding st n3 kh ..
      ultimately show ?thesis by blast
    qed
  qed
qed

lemma post_save_loop_new:
  assumes "distinct (map fst items)"
    and "\<forall>e \<in> set h. snd e = NewInstanceField"
    and "\<forall>v. py_ne P NewInstanceField v"
  shows "snd (post_save_loop P sender oid items (h, log)) =
           log @ map (\<lambda>(n, v). Change sender oid n NewInstanceField v)
                   (filter (\<lambda>(n, v). n \<in> fst ` set h) items)"
proof -
  have "snd (post_save_loop P sender oid items (h', log)) =
           log @ map (\<lambda>(n, v). Change sender oid n NewInstanceField v)
                   (filter (\<lambda>(n, v). n \<in> fst ` set h) items)"
    if "distinct (map fst items)" and "fst ` set h' = fst ` set h"
      and "\<forall>(n, v) \<in> set items. n \<in> fst ` set h \<longrightarrow> map_of h' n = Some NewInstanceField"
    for h' using that
  proof (induction items arbitrary: h' log)
    case Nil
    show ?case by simp
  next
    case (Cons e items)
    obtain n v where e: "e = (n, v)" by (cases e)
    have d: "distinct (map fst items)" and nn: "n \<notin> fst ` set items"
      using Cons.prems(1) unfolding e by (simp_all add: image_iff)
    show ?case
    proof (cases "n \<in> fst ` set h")
      case False
      then have "map_of h' n = None"
        using Cons.prems(2) map_of_None_keys [of h' n] by simp
      moreover have "\<forall>(n, v) \<in> set items. n \<in> fst ` set h \<longrightarrow> map_of h' n = Some NewInstanceField"
        using Cons.prems(3) by simp
      ultimately show ?thesis
        unfolding e using False Cons.IH [OF d Cons.prems(2), of log] by simp
    next
      case True
      then have o: "map_of h' n = Some NewInstanceField"
        using Cons.prems(3) unfolding e by simp
      let ?h = "dict_set n (Known v) h'" and ?log = "change sender oid n NewInstanceField v log"
      have kh: "fst ` set ?h = fst ` set h"
        using True Cons.prems(2) by (auto simp: dict_set_keys)
      have r: "\<forall>(n', v') \<in> set items. n' \<in> fst ` set h \<longrightarrow> map_of ?h n' = Some NewInstanceField"
      proof -
        have "map_of ?h n' = Some NewInstanceField"
          if i: "(n', v') \<in> set items" and k: "n' \<in> fst ` set h" for n' v'
        proof -
          have "n' \<in> fst ` set items" using i by force
          then have "n' \<noteq> n" using nn by auto
          moreover have "map_of h' n' = Some NewInstanceField"
            using Cons.prems(3) i k by auto
          ultimately show ?thesis by (simp add: dict_set_map_of)
        qed
        then show ?thesis by auto
      qed
      have st: "post_save_loop P sender oid (e # items) (h', log) =
                  post_save_loop P sender oid items (?h, ?log)"
        unfolding e using o assms(3) by simp
      show ?thesis
        unfolding st Cons.IH [OF d kh r, of ?log] unfolding e using True
        by (simp add: change_def)
    qed
  qed
  moreover have "\<forall>(n, v) \<in> set items. n \<in> fst ` set h \<longrightarrow> map_of h n = Some NewInstanceField"
  proof -
    have "map_of h n = Some NewInstanceField" if k: "n \<in> fst ` set h" for n
    proof -
      obtain old where m: "map_of h n = Some old"
        using k map_of_None_keys [of h n] by (cases "map_of h n") simp_all
      then have "(n, old) \<in> set h" by (rule map_of_SomeD)
      with assms(2) have "old = NewInstanceField" by force
      with m show ?thesis by simp
    qed
    then show ?thesis by auto
  qed
  ultimately show ?thesis using assms(1) by blast
qed

lemma post_save_loop_lookup:
  assumes "distinct (map fst items)"
  shows "map_of (fst (post_save_loop P sender oid items (h, log))) n =
           (case map_of items n of
              None \<Rightarrow> map_of h n
            | Some v \<Rightarrow>
                (case map_of h n of
                   None \<Rightarrow> None
                 | Some old \<Rightarrow> if py_ne P old v then Some (Known v) else Some old))"
  using assms
proof (induction items arbitrary: h log)
  case Nil
  show ?case by simp
next
  case (Cons e items)
  obtain k v where e: "e = (k, v)" by (cases e)
  have d: "distinct (map fst items)" and kn: "k \<notin> fst ` set items"
    using Cons.prems unfolding e by (simp_all add: image_iff)
  have mk: "map_of items k = None" using kn by (simp add: map_of_None_keys)
  show ?case
  proof (cases "map_of h k")
    case None
    then show ?thesis
      unfolding e using Cons.IH [OF d, of h log] mk by (auto split: option.splits)
  next
    case (Some old)
    show ?thesis
    proof (cases "py_ne P old v")
      case False
      then show ?thesis
        unfolding e using Some Cons.IH [OF d, of h log] mk by (auto split: option.splits)
    next
      case True
      then show ?thesis
        unfolding e using Some Cons.IH [OF d, of "dict_set k (Known v) h" "change sender oid k old v log"] mk
        by (auto simp: dict_set_map_of split: option.splits)
    qed
  qed
qed

lemma post_save_parts:
  "snd (history_obj_post_save P sender inst log) =
     snd (post_save_loop P sender (pk inst) (binder_concrete_fields_as_dict P inst False)
            (history inst, log))"
  "history (fst (history_obj_post_save P sender inst log)) =
     fst (post_save_loop P sender (pk inst) (binder_concrete_fields_as_dict P inst False)
            (history inst, log))"
  by (simp_all add: history_obj_post_save_def case_prod_beta)

text \<open>
  C9: after \<^verbatim>\<open>history_obj_post_init\<close> on an instance whose primary key is false,
  the snapshot has the concrete fields that are loaded, each with the sentinel. A save on a
  snapshot that holds only the sentinel, the sentinel differing from every value, emits one
  record from the sentinel to the current value for each field of the snapshot, in the
  order of the fields, and sets the snapshot of the field to that value; the fields of the
  dictionary are distinct, so it is one record per field. A save where no value differs
  from the snapshot emits nothing and changes nothing. No save emits a record about a
  field that the snapshot has not, or adds a field to the snapshot.
\<close>

theorem history_of_new_instance:
  "(\<not> py_truthy P (pk inst0) \<longrightarrow>
      map fst (history (history_obj_post_init P sender inst0)) =
        map fst (binder_concrete_fields_as_dict P inst0 True) \<and>
      (\<forall>e \<in> set (history (history_obj_post_init P sender inst0)). snd e = NewInstanceField)) \<and>
   ((\<forall>e \<in> set (history inst). snd e = NewInstanceField) \<and> (\<forall>v. py_ne P NewInstanceField v) \<longrightarrow>
      snd (history_obj_post_save P sender inst log) =
        log @ map (\<lambda>(n, v). Change sender (pk inst) n NewInstanceField v)
                (filter (\<lambda>(n, v). n \<in> fst ` set (history inst))
                   (binder_concrete_fields_as_dict P inst False)) \<and>
      (\<forall>n v. n \<in> fst ` set (history inst) \<and>
             map_of (binder_concrete_fields_as_dict P inst False) n = Some v \<longrightarrow>
             map_of (history (fst (history_obj_post_save P sender inst log))) n = Some (Known v))) \<and>
   distinct (map fst (binder_concrete_fields_as_dict P inst False)) \<and>
   ((\<forall>(n, v) \<in> set (binder_concrete_fields_as_dict P inst False).
       \<forall>old. map_of (history inst) n = Some old \<longrightarrow> \<not> py_ne P old v) \<longrightarrow>
      history_obj_post_save P sender inst log = (inst, log)) \<and>
   fst ` set (history (fst (history_obj_post_save P sender inst log))) = fst ` set (history inst) \<and>
   (\<exists>new. snd (history_obj_post_save P sender inst log) = log @ new \<and>
          (\<forall>c \<in> set new. change_field c \<in> fst ` set (history inst)))"
proof (intro conjI impI)
  assume "\<not> py_truthy P (pk inst0)"
  then show "map fst (history (history_obj_post_init P sender inst0)) =
        map fst (binder_concrete_fields_as_dict P inst0 True)"
    by (simp add: history_obj_post_init_def Let_def comp_def case_prod_beta)
next
  assume "\<not> py_truthy P (pk inst0)"
  then show "\<forall>e \<in> set (history (history_obj_post_init P sender inst0)). snd e = NewInstanceField"
    by (auto simp: history_obj_post_init_def Let_def)
next
  assume a: "(\<forall>e \<in> set (history inst). snd e = NewInstanceField) \<and> (\<forall>v. py_ne P NewInstanceField v)"
  show "snd (history_obj_post_save P sender inst log) =
        log @ map (\<lambda>(n, v). Change sender (pk inst) n NewInstanceField v)
                (filter (\<lambda>(n, v). n \<in> fst ` set (history inst))
                   (binder_concrete_fields_as_dict P inst False))"
    unfolding post_save_parts
    using a by (intro post_save_loop_new concrete_fields_distinct) simp_all
next
  assume a: "(\<forall>e \<in> set (history inst). snd e = NewInstanceField) \<and> (\<forall>v. py_ne P NewInstanceField v)"
  show "\<forall>n v. n \<in> fst ` set (history inst) \<and>
             map_of (binder_concrete_fields_as_dict P inst False) n = Some v \<longrightarrow>
             map_of (history (fst (history_obj_post_save P sender inst log))) n = Some (Known v)"
  proof (intro allI impI)
    fix n v
    assume b: "n \<in> fst ` set (history inst) \<and>
             map_of (binder_concrete_fields_as_dict P inst False) n = Some v"
    then obtain old where m: "map_of (history inst) n = Some old"
      using map_of_None_keys [of "history inst" n] by (cases "map_of (history inst) n") simp_all
    then have "(n, old) \<in> set (history inst)" by (rule map_of_SomeD)
    with a have o: "old = NewInstanceField" by force
    show "map_of (history (fst (history_obj_post_save P sender inst log))) n = Some (Known v)"
      unfolding post_save_parts
      using post_save_loop_lookup [OF concrete_fields_distinct, of P sender "pk inst" P inst False
          "history inst" log n] a b m o
      by simp
  qed
next
  show "distinct (map fst (binder_concrete_fields_as_dict P inst False))"
    by (rule concrete_fields_distinct)
next
  assume "\<forall>(n, v) \<in> set (binder_concrete_fields_as_dict P inst False).
       \<forall>old. map_of (history inst) n = Some old \<longrightarrow> \<not> py_ne P old v"
  then show "history_obj_post_save P sender inst log = (inst, log)"
    by (simp add: history_obj_post_save_def post_save_loop_unchanged)
next
  show "fst ` set (history (fst (history_obj_post_save P sender inst log))) = fst ` set (history inst)"
    unfolding post_save_parts
    using post_save_loop_keys [of P sender "pk inst" _ "history inst" log] by blast
next
  show "\<exists>new. snd (history_obj_post_save P sender inst log) = log @ new \<and>
          (\<forall>c \<in> set new. change_field c \<in> fst ` set (history inst))"
    unfolding post_save_parts
    using post_save_loop_keys [of P sender "pk inst" _ "history inst" log] by blast
qed

lemma animal_dict:
  "binder_concrete_fields_as_dict example_ops new_animal True =
     [(''id'', VNone), (''name'', VStr ''Rex''), (''zoo'', VInt 7)]"
  "binder_concrete_fields_as_dict example_ops unsaved_animal False =
     [(''id'', VInt 1), (''name'', VStr ''Rex''), (''zoo'', VInt 7)]"
  "binder_concrete_fields_as_dict example_ops saved_animal False =
     [(''id'', VInt 1), (''name'', VStr ''Rex''), (''zoo'', VInt 7)]"
  by (simp_all add: binder_concrete_fields_as_dict_def new_animal_def unsaved_animal_def
      saved_animal_def animal_fields_def plain_field_def animal_attrs_def example_ops_def)

theorem history_of_new_instance_witness:
  "history (history_obj_post_init example_ops ''Animal'' new_animal) =
     [(''id'', NewInstanceField), (''name'', NewInstanceField), (''zoo'', NewInstanceField)] \<and>
   snd (history_obj_post_save example_ops ''Animal'' unsaved_animal []) =
     [Change ''Animal'' (VInt 1) ''id'' NewInstanceField (VInt 1),
      Change ''Animal'' (VInt 1) ''name'' NewInstanceField (VStr ''Rex''),
      Change ''Animal'' (VInt 1) ''zoo'' NewInstanceField (VInt 7)] \<and>
   map_of (history (fst (history_obj_post_save example_ops ''Animal'' unsaved_animal []))) ''name'' =
     Some (Known (VStr ''Rex'')) \<and>
   history_obj_post_save example_ops ''Animal'' saved_animal [] = (saved_animal, [])"
proof -
  have i: "history (history_obj_post_init example_ops ''Animal'' new_animal) =
     [(''id'', NewInstanceField), (''name'', NewInstanceField), (''zoo'', NewInstanceField)]"
    by (simp add: history_obj_post_init_def animal_dict)
      (simp add: new_animal_def example_ops_def)
  have h: "history unsaved_animal =
     [(''id'', NewInstanceField), (''name'', NewInstanceField), (''zoo'', NewInstanceField)]"
    "pk unsaved_animal = VInt 1"
    "history saved_animal =
       [(''id'', Known (VInt 1)), (''name'', Known (VStr ''Rex'')), (''zoo'', Known (VInt 7))]"
    by (simp_all add: unsaved_animal_def saved_animal_def)
  have n: "\<forall>v. py_ne example_ops NewInstanceField v"
    "py_ne example_ops = (\<lambda>old new. old \<noteq> Known new)"
    by (simp_all add: example_ops_def)
  from history_of_new_instance [of example_ops new_animal "''Animal''" unsaved_animal "[]"]
    history_of_new_instance [of example_ops new_animal "''Animal''" saved_animal "[]"]
    i h n animal_dict
  show ?thesis by simp
qed

end
